(* ===== verification/Prelude.thy ===== *)
theory Prelude
  imports Main "HOL-Library.Log_Nat" "HOL-Library.Multiset" "HOL-Library.AList"
begin

text \<open>
  Shared vocabulary of the donation-tracker development: the collections of
  rewrite rules that the component theories fill, and the generic facts on
  lists and association lists that several components use. The program's own
  types and operations live in the component theories.
\<close>

named_theorems js_simps \<open>evaluation rules of the JavaScript runtime model\<close>
named_theorems app_simps \<open>evaluation rules of the application's handlers\<close>

text \<open>A JavaScript string is modelled as a HOL string (a list of characters).\<close>

type_synonym js_string = string

subsection \<open>Lists\<close>

lemma filter_partition_mset:
  "mset (filter P xs) + mset (filter (\<lambda>x. \<not> P x) xs) = mset xs"
  by (induction xs) auto


text \<open>
  An association list built as the graph of a function over a list of keys:
  looking a key up and updating it in place.
\<close>

lemma update_graph:
  "distinct ks \<Longrightarrow> k \<in> set ks \<Longrightarrow>
   AList.update k v (map (\<lambda>x. (x, f x)) ks) = map (\<lambda>x. (x, (f(k := v)) x)) ks"
  by (induction ks) auto

lemma map_of_graph:
  "map_of (map (\<lambda>x. (x, f x)) ks) k = (if k \<in> set ks then Some (f k) else None)"
  by (induction ks) auto

lemma mset_concat_filter_partition:
  "distinct ks \<Longrightarrow> set (map f xs) \<subseteq> set ks \<Longrightarrow>
   mset (concat (map (\<lambda>k. filter (\<lambda>x. f x = k) xs) ks)) = mset xs"
proof (induction ks arbitrary: xs)
  case Nil
  then show ?case by simp
next
  case (Cons k ks)
  let ?ys = "filter (\<lambda>x. f x \<noteq> k) xs"
  have eq: "map (\<lambda>k'. filter (\<lambda>x. f x = k') xs) ks = map (\<lambda>k'. filter (\<lambda>x. f x = k') ?ys) ks"
    using Cons.prems(1) by (auto simp: filter_filter intro!: filter_cong)
  have "mset (concat (map (\<lambda>k'. filter (\<lambda>x. f x = k') ?ys) ks)) = mset ?ys"
    using Cons.prems by (intro Cons.IH) auto
  then have "mset (concat (map (\<lambda>k'. filter (\<lambda>x. f x = k') xs) ks)) = mset ?ys"
    by (simp only: eq)
  then show ?case
    using filter_partition_mset [of "\<lambda>x. f x = k" xs] by (simp del: mset_filter)
qed

lemma distinct_fst_filter_le1:
  "distinct (map fst xs) \<Longrightarrow> length (filter (\<lambda>p. fst p = k) xs) \<le> 1"
  by (induction xs) (auto simp: filter_empty_conv image_iff)

end
