(* ===== verification/JS_Number.thy ===== *)
theory JS_Number
  imports Prelude
begin

text \<open>
  The JavaScript number type (IEEE 754 binary64) as the application uses it:
  donation amounts, their running total, the settled amount and the remaining
  balance are all JavaScript numbers. A number is a finite double (kept as the
  exact rational it denotes), one of the two infinities, or NaN. The sign of
  zero is not kept: the application's accumulators start at \<open>+0\<close> and a
  finite sum is \<open>-0\<close> only when both operands are, so the total and the
  remaining balance are never \<open>-0\<close>.

  \<open>round_double\<close> is round-to-nearest, ties-to-even, with 53 significant bits,
  gradual underflow below \<open>2^-1022\<close> and overflow to infinity at \<open>2^1024\<close>.
  Addition and subtraction are exact rational arithmetic followed by this
  rounding, as IEEE 754 prescribes. The relational operators follow the
  abstract relational comparison of ECMAScript: any comparison with NaN is false.
\<close>

datatype jsnum = Num rat | PInf | NInf | NaN

subsection \<open>Rounding to binary64\<close>

text \<open>\<open>flog2 a\<close> is the exponent \<open>e\<close> with \<open>2^e \<le> a < 2^(e+1)\<close>, for \<open>0 < a\<close>.\<close>

definition flog2 :: "rat \<Rightarrow> int" where
  "flog2 a = (if 1 \<le> a then bitlen \<lfloor>a\<rfloor> - 1 else - bitlen (\<lceil>inverse a\<rceil> - 1))"

definition round_even :: "rat \<Rightarrow> int" where
  "round_even s =
     (let n = \<lfloor>s\<rfloor>; f = s - of_int n in
      if f < 1/2 then n else if 1/2 < f then n + 1 else if even n then n else n + 1)"

text \<open>The exponent of the unit in the last place of a double of magnitude \<open>a\<close>.\<close>

definition ulp_exp :: "rat \<Rightarrow> int" where
  "ulp_exp a = max (flog2 a) (-1022) - 52"

definition round_double :: "rat \<Rightarrow> jsnum" where
  "round_double x =
     (if x = 0 then Num 0
      else let a = \<bar>x\<bar>; q = ulp_exp a;
               r = of_int (round_even (a / 2 powi q)) * 2 powi q
           in if 2 ^ 1024 \<le> r then (if 0 < x then PInf else NInf)
              else Num (if 0 < x then r else - r))"

subsection \<open>Arithmetic and comparison\<close>

fun js_add :: "jsnum \<Rightarrow> jsnum \<Rightarrow> jsnum" where
  "js_add (Num a) (Num b) = round_double (a + b)"
| "js_add NaN y = NaN"
| "js_add x NaN = NaN"
| "js_add PInf NInf = NaN"
| "js_add NInf PInf = NaN"
| "js_add PInf y = PInf"
| "js_add NInf y = NInf"
| "js_add (Num a) y = y"

fun js_neg :: "jsnum \<Rightarrow> jsnum" where
  "js_neg (Num a) = Num (- a)"
| "js_neg PInf = NInf"
| "js_neg NInf = PInf"
| "js_neg NaN = NaN"

definition js_sub :: "jsnum \<Rightarrow> jsnum \<Rightarrow> jsnum" where
  "js_sub x y = js_add x (js_neg y)"

fun js_le :: "jsnum \<Rightarrow> jsnum \<Rightarrow> bool" where
  "js_le NaN y = False"
| "js_le x NaN = False"
| "js_le NInf y = True"
| "js_le x PInf = True"
| "js_le PInf y = False"
| "js_le x NInf = False"
| "js_le (Num a) (Num b) = (a \<le> b)"

fun js_lt :: "jsnum \<Rightarrow> jsnum \<Rightarrow> bool" where
  "js_lt NaN y = False"
| "js_lt x NaN = False"
| "js_lt x NInf = False"
| "js_lt PInf y = False"
| "js_lt NInf y = True"
| "js_lt x PInf = True"
| "js_lt (Num a) (Num b) = (a < b)"

text \<open>ToBoolean of a number: \<open>0\<close> and NaN are falsy.\<close>

fun js_truthy_num :: "jsnum \<Rightarrow> bool" where
  "js_truthy_num (Num a) = (a \<noteq> 0)"
| "js_truthy_num NaN = False"
| "js_truthy_num x = True"

text \<open>
  The library's arithmetic and order syntax for JavaScript numbers, so that the
  application's \<open>sum + entry.amount\<close> and \<open>remaining >= SETTLE_AMOUNT\<close> read
  as in the source.
\<close>

instantiation jsnum :: "{zero, plus, minus, uminus, ord}"
begin

definition zero_jsnum_def: "0 = Num 0"
definition plus_jsnum_def: "x + y = js_add x y"
definition minus_jsnum_def: "x - y = js_sub x y"
definition uminus_jsnum_def: "- x = js_neg x"
definition less_eq_jsnum_def: "x \<le> y \<longleftrightarrow> js_le x y"
definition less_jsnum_def: "x < y \<longleftrightarrow> js_lt x y"

instance ..

end

lemmas jsnum_ops [js_simps] =
  zero_jsnum_def plus_jsnum_def minus_jsnum_def uminus_jsnum_def less_eq_jsnum_def less_jsnum_def

subsection \<open>Exactness on integers\<close>

text \<open>
  Every integer of magnitude at most \<open>2^53\<close> is a double, so rounding leaves it
  alone: sums of whole-rupee amounts are exact while they stay in that range.
\<close>


lemma round_even_of_int [simp, js_simps]: "round_even (of_int m) = m"
  by (simp add: round_even_def)

lemma flog2_of_int: "1 \<le> n \<Longrightarrow> flog2 (of_int n) = bitlen n - 1"
  by (simp add: flog2_def)

lemma round_double_on_grid:
  assumes "x \<noteq> 0" and "\<bar>x\<bar> / 2 powi ulp_exp \<bar>x\<bar> = of_int m" and "\<bar>x\<bar> < 2 ^ 1024"
  shows "round_double x = Num x"
proof -
  have "of_int m * 2 powi ulp_exp \<bar>x\<bar> = \<bar>x\<bar>"
    using assms(2) by (simp add: field_simps power_int_not_zero)
  with assms show ?thesis
    by (auto simp: round_double_def Let_def)
qed

lemma int_on_grid:
  assumes "1 \<le> a" and "a \<le> 2 ^ 53"
  shows "\<exists>m. rat_of_int a / 2 powi ulp_exp (rat_of_int a) = of_int m"
proof -
  have b0: "1 \<le> bitlen a" using assms(1) bitlen_ge_iff_power[of 1 a] by simp
  have b54: "bitlen a \<le> 54" using assms by (simp add: bitlen_le_iff_power)
  have q: "ulp_exp (rat_of_int a) = bitlen a - 53"
    using assms(1) b0 by (simp add: ulp_exp_def flog2_of_int)
  show ?thesis
  proof (cases "bitlen a \<le> 53")
    case True
    then have "rat_of_int a / 2 powi ulp_exp (rat_of_int a) = of_int (a * 2 ^ nat (53 - bitlen a))"
      by (simp add: q power_int_def power_one_over)
    then show ?thesis by blast
  next
    case False
    with b54 have "bitlen a = 54" by simp
    with bitlen_bounds[of a] assms have "a = 2 ^ 53" by simp
    moreover have "ulp_exp (rat_of_int a) = 1"
      using q \<open>bitlen a = 54\<close> by simp
    ultimately have "rat_of_int a / 2 powi ulp_exp (rat_of_int a) = of_int (2 ^ 52)"
      by simp
    then show ?thesis by blast
  qed
qed

lemma round_double_int:
  assumes "\<bar>n\<bar> \<le> 2 ^ 53"
  shows "round_double (of_int n) = Num (of_int n)"
proof (cases "n = 0")
  case True
  then show ?thesis by (simp add: round_double_def)
next
  case False
  then have "1 \<le> \<bar>n\<bar>" by simp
  with assms obtain m where "rat_of_int \<bar>n\<bar> / 2 powi ulp_exp (rat_of_int \<bar>n\<bar>) = of_int m"
    using int_on_grid by blast
  moreover have "\<bar>rat_of_int n\<bar> < 2 ^ 1024"
  proof -
    have "\<bar>n\<bar> < 2 ^ 1024" using assms by (rule le_less_trans) simp
    then show ?thesis by (metis of_int_abs of_int_less_numeral_power_cancel_iff)
  qed
  ultimately show ?thesis using False
    by (intro round_double_on_grid) simp_all
qed


lemma round_double_numeral [js_simps]:
  "numeral n \<le> (2::int) ^ 53 \<Longrightarrow> round_double (numeral n) = Num (numeral n)"
  using round_double_int [of "numeral n"] by simp

lemma round_double_neg_numeral [js_simps]:
  "numeral n \<le> (2::int) ^ 53 \<Longrightarrow> round_double (- numeral n) = Num (- numeral n)"
  using round_double_int [of "- numeral n"] by simp

lemma round_double_zero [js_simps]: "round_double 0 = Num 0"
  by (simp add: round_double_def)

lemma js_add_int [js_simps]:
  assumes "\<bar>a + b\<bar> \<le> 2 ^ 53"
  shows "js_add (Num (of_int a)) (Num (of_int b)) = Num (of_int (a + b))"
  using round_double_int [OF assms] by simp

lemma js_sub_int [js_simps]:
  assumes "\<bar>a - b\<bar> \<le> 2 ^ 53"
  shows "js_sub (Num (of_int a)) (Num (of_int b)) = Num (of_int (a - b))"
  using round_double_int [OF assms] by (simp add: js_sub_def)

subsection \<open>NaN only from NaN or opposite infinities\<close>

lemma round_double_not_NaN [simp, js_simps]: "round_double x \<noteq> NaN"
  by (simp add: round_double_def Let_def)

lemma js_neg_eq_NaN [simp, js_simps]: "js_neg x = NaN \<longleftrightarrow> x = NaN"
  by (cases x) auto

lemma js_add_Num_not_NaN: "x \<noteq> NaN \<Longrightarrow> js_add x (Num a) \<noteq> NaN"
  by (cases x) auto

subsection \<open>The exponent and a lower bound of rounding\<close>

text \<open>
  \<open>flog2\<close> computes the binary exponent exactly; rounding never goes below a
  grid point of the result's precision that lies below its argument. In
  particular a value of at least \<open>2^53\<close> never rounds below \<open>2^53\<close>.
\<close>

lemma powi_nonneg: "0 \<le> k \<Longrightarrow> (2::rat) powi k = 2 ^ nat k"
  unfolding power_int_def by simp

lemma powi_neg: "k < 0 \<Longrightarrow> (2::rat) powi k = inverse (2 ^ nat (- k))"
  unfolding power_int_def by (simp add: power_one_over inverse_eq_divide)

lemma flog2_bounds_ge1:
  assumes "1 \<le> a"
  shows "2 powi flog2 a \<le> a \<and> a < 2 powi (flog2 a + 1)"
proof -
  define n where "n = \<lfloor>a\<rfloor>"
  define b where "b = bitlen n"
  have n: "1 \<le> n" using assms by (simp add: n_def)
  have bb: "2 ^ nat (b - 1) \<le> n \<and> n < 2 ^ nat b"
    using bitlen_bounds [of n] n by (simp add: b_def)
  have b1: "1 \<le> b" using n bitlen_ge_iff_power [of 1 n] by (simp add: b_def)
  have f: "flog2 a = b - 1" using assms by (simp add: flog2_def n_def b_def)
  have p1: "2 powi flog2 a = rat_of_int (2 ^ nat (b - 1))"
    using b1 f by (simp add: powi_nonneg)
  have p2: "2 powi (flog2 a + 1) = rat_of_int (2 ^ nat b)"
    using b1 f by (simp add: powi_nonneg)
  have "rat_of_int (2 ^ nat (b - 1)) \<le> rat_of_int n" using bb by (simp only: of_int_le_iff)
  moreover have "rat_of_int n \<le> a" by (simp add: n_def)
  moreover have "a < rat_of_int n + 1" using floor_correct [of a] by (simp add: n_def)
  moreover have "rat_of_int n + 1 \<le> rat_of_int (2 ^ nat b)"
  proof -
    have "n + 1 \<le> 2 ^ nat b" using bb by simp
    then show ?thesis by (metis of_int_1 of_int_add of_int_le_iff)
  qed
  ultimately show ?thesis using p1 p2 by linarith
qed


lemma flog2_bounds_lt1:
  assumes "0 < a" and "a < 1"
  shows "2 powi flog2 a \<le> a \<and> a < 2 powi (flog2 a + 1)"
proof -
  define m where "m = \<lceil>inverse a\<rceil> - 1"
  define b where "b = bitlen m"
  have ia: "1 < inverse a" using assms by (simp add: one_less_inverse)
  then have m: "1 \<le> m" by (simp add: m_def le_ceiling_iff)
  have bb: "2 ^ nat (b - 1) \<le> m \<and> m < 2 ^ nat b"
    using bitlen_bounds [of m] m by (simp add: b_def)
  have b1: "1 \<le> b" using m bitlen_ge_iff_power [of 1 m] by (simp add: b_def)
  have f: "flog2 a = - b" using assms by (simp add: flog2_def m_def b_def)
  have "inverse a \<le> rat_of_int m + 1" using le_of_int_ceiling [of "inverse a"] by (simp add: m_def)
  also have "\<dots> \<le> 2 ^ nat b"
  proof -
    have "m + 1 \<le> 2 ^ nat b" using bb by simp
    then show ?thesis by (metis of_int_1 of_int_add of_int_le_iff of_int_numeral of_int_power)
  qed
  finally have "inverse a \<le> 2 ^ nat b" .
  then have lo: "inverse (2 ^ nat b) \<le> a"
    using assms by (metis inverse_inverse_eq le_imp_inverse_le inverse_positive_iff_positive)
  have "(2::rat) ^ nat (b - 1) \<le> rat_of_int m"
    using bb by (metis of_int_le_iff of_int_numeral of_int_power)
  also have "\<dots> < inverse a" using ceiling_correct [of "inverse a"] by (simp add: m_def)
  finally have "2 ^ nat (b - 1) < inverse a" .
  then have hi: "a < inverse (2 ^ nat (b - 1))"
    using assms by (metis inverse_inverse_eq less_imp_inverse_less zero_less_power zero_less_numeral)
  have p1: "(2::rat) powi flog2 a = inverse (2 ^ nat b)" using b1 f by (simp add: powi_neg)
  have p2: "(2::rat) powi (flog2 a + 1) = inverse (2 ^ nat (b - 1))"
  proof (cases "b = 1")
    case True
    then show ?thesis using f by simp
  next
    case False
    then have "flog2 a + 1 < 0" using b1 f by simp
    then show ?thesis using f by (simp add: powi_neg)
  qed
  show ?thesis using lo hi p1 p2 by simp
qed

lemma flog2_bounds:
  assumes "0 < a"
  shows "2 powi flog2 a \<le> a \<and> a < 2 powi (flog2 a + 1)"
  using assms flog2_bounds_ge1 flog2_bounds_lt1 by (cases "1 \<le> a") auto


lemma round_even_ge_floor: "\<lfloor>s\<rfloor> \<le> round_even s"
  by (simp add: round_even_def Let_def)

lemma round_double_ge_grid:
  assumes "0 < y" and "c \<le> y" and "c / 2 powi ulp_exp y = of_int k"
  shows "js_le (Num c) (round_double y)"
proof -
  let ?q = "ulp_exp y"
  have pos: "(0::rat) < 2 powi ?q" by simp
  have "rat_of_int k \<le> y / 2 powi ?q"
    using assms(2,3) pos by (metis divide_right_mono less_imp_le)
  then have "k \<le> \<lfloor>y / 2 powi ?q\<rfloor>" by (simp add: le_floor_iff)
  also have "\<dots> \<le> round_even (y / 2 powi ?q)" by (rule round_even_ge_floor)
  finally have "rat_of_int k * 2 powi ?q \<le> rat_of_int (round_even (y / 2 powi ?q)) * 2 powi ?q"
    using pos by (simp add: mult_right_mono)
  moreover have "c = rat_of_int k * 2 powi ?q" using assms(3) pos by (simp add: field_simps)
  ultimately show ?thesis using assms(1)
    by (auto simp: round_double_def Let_def)
qed

lemma round_double_ge_2p53:
  assumes "2 ^ 53 \<le> y"
  shows "js_le (Num (2 ^ 53)) (round_double y)"
proof -
  have y: "0 < y" using assms by (rule less_le_trans [rotated]) simp
  have "2 ^ 53 < (2::rat) powi (flog2 y + 1)" using assms flog2_bounds [OF y] by linarith
  then have "(2::rat) powi 53 < 2 powi (flog2 y + 1)" by (simp add: powi_nonneg)
  have e: "53 \<le> flog2 y"
  proof (rule ccontr)
    assume "\<not> 53 \<le> flog2 y"
    then have "(2::rat) powi (flog2 y + 1) \<le> 2 powi 53" by (intro power_int_increasing) auto
    with \<open>(2::rat) powi 53 < 2 powi (flog2 y + 1)\<close> show False by simp
  qed
  then have q: "ulp_exp y = flog2 y - 52" by (simp add: ulp_exp_def)
  have g: "2 powi flog2 y / 2 powi ulp_exp y = rat_of_int (2 ^ 52)"
    using power_int_diff [of "2::rat" "flog2 y" "flog2 y - 52"] by (simp add: q)
  have "js_le (Num (2 powi flog2 y)) (round_double y)"
    using y flog2_bounds [OF y] g by (intro round_double_ge_grid) auto
  moreover have "(2::rat) ^ 53 \<le> 2 powi flog2 y"
    using power_int_increasing [of 53 "flog2 y" "2::rat"] e by simp
  ultimately show ?thesis by (cases "round_double y") auto
qed

end
