(* ===== verification/JS_Parse.thy ===== *)
theory JS_Parse
  imports JS_Number
begin

text \<open>
  String-to-number conversions of the JavaScript runtime that the
  add-contribution handler calls on the amount field: \<open>isNaN(amount)\<close> applies
  ToNumber (StringToNumber, ECMA-262 7.1.4.1.1) to the string, and
  \<open>parseFloat(amount)\<close> reads the longest prefix that is a StrDecimalLiteral
  (ECMA-262 19.2.4). Characters are UTF-16 code units below 256 (Latin-1),
  so the white space recognised is TAB, LF, VT, FF, CR, SPACE and NBSP; the
  Unicode space separators above 255 are not represented. The value of a
  literal is its exact decimal value rounded by \<open>round_double\<close>.

  The amount field is an \<open><input type="number">\<close>: its value is the empty
  string or a valid floating-point number of the HTML standard
  (\<open>valid_float_string\<close>), which is how the browser sanitises what the user types.
\<close>

subsection \<open>Character classes\<close>

text \<open>The code unit of a character, for range tests.\<close>

abbreviation code_unit :: "char \<Rightarrow> int" where
  "code_unit c \<equiv> of_char c"

definition in_range :: "char \<Rightarrow> char \<Rightarrow> char \<Rightarrow> bool" where
  "in_range lo hi c \<longleftrightarrow> code_unit lo \<le> code_unit c \<and> code_unit c \<le> code_unit hi"

definition is_digit :: "char \<Rightarrow> bool" where
  "is_digit c \<longleftrightarrow> in_range CHR ''0'' CHR ''9'' c"

definition digit_val :: "char \<Rightarrow> int" where
  "digit_val c = code_unit c - code_unit CHR ''0''"

definition is_js_space :: "char \<Rightarrow> bool" where
  "is_js_space c \<longleftrightarrow> c \<in> {CHR 0x09, CHR 0x0A, CHR 0x0B, CHR 0x0C, CHR 0x0D, CHR 0x20, CHR 0xA0}"

text \<open>The value of a digit string in base \<open>b\<close>, most significant digit first.\<close>

definition digits_val :: "int \<Rightarrow> (char \<Rightarrow> int) \<Rightarrow> char list \<Rightarrow> int" where
  "digits_val b v ds = foldl (\<lambda>n c. b * n + v c) 0 ds"

definition js_trim :: "js_string \<Rightarrow> js_string" where
  "js_trim s = rev (dropWhile is_js_space (rev (dropWhile is_js_space s)))"

subsection \<open>Decimal literals\<close>

text \<open>
  An exponent part \<open>e\<close>/\<open>E\<close>, an optional sign and at least one digit. It is
  consumed only when complete, so that the longest literal prefix is found.
\<close>

definition split_sign :: "js_string \<Rightarrow> int \<times> js_string" where
  "split_sign t =
     (case t of
        d # u \<Rightarrow> if d = CHR ''+'' then (1, u) else if d = CHR ''-'' then (-1, u) else (1, t)
      | [] \<Rightarrow> (1, t))"

definition scan_exponent :: "js_string \<Rightarrow> int \<times> js_string" where
  "scan_exponent s =
     (case s of
        c # t \<Rightarrow>
          if c = CHR ''e'' \<or> c = CHR ''E'' then
            let (sg, u) = split_sign t; ds = takeWhile is_digit u
            in if ds = [] then (0, s)
               else (sg * digits_val 10 digit_val ds, dropWhile is_digit u)
          else (0, s)
      | [] \<Rightarrow> (0, s))"

text \<open>
  StrUnsignedDecimalLiteral: \<open>Infinity\<close>, or digits with an optional fraction,
  or a fraction alone, then an optional exponent. The result is the value of the
  longest such prefix and the rest of the string.
\<close>

definition scan_unsigned :: "js_string \<Rightarrow> (jsnum \<times> js_string) option" where
  "scan_unsigned s =
     (if take 8 s = ''Infinity'' then Some (PInf, drop 8 s)
      else
        let ds1 = takeWhile is_digit s; r1 = dropWhile is_digit s;
            (ds2, r2, has_frac) =
              (case r1 of
                 c # t \<Rightarrow> if c = CHR ''.'' then (takeWhile is_digit t, dropWhile is_digit t, True)
                          else ([], r1, False)
               | [] \<Rightarrow> ([], r1, False))
        in if ds1 = [] \<and> ds2 = [] then None
           else
             let (ex, r3) = scan_exponent r2;
                 mant = rat_of_int (digits_val 10 digit_val (ds1 @ ds2)) / 10 ^ length ds2
             in Some (round_double (mant * 10 powi ex), r3))"

definition scan_decimal :: "js_string \<Rightarrow> (jsnum \<times> js_string) option" where
  "scan_decimal s =
     (case s of
        c # t \<Rightarrow>
          if c = CHR ''+'' then scan_unsigned t
          else if c = CHR ''-'' then map_option (\<lambda>(v, r). (js_neg v, r)) (scan_unsigned t)
          else scan_unsigned s
      | [] \<Rightarrow> None)"

subsection \<open>Non-decimal integer literals\<close>

definition hex_val :: "char \<Rightarrow> int" where
  "hex_val c =
     (if is_digit c then digit_val c
      else if in_range CHR ''a'' CHR ''f'' c then code_unit c - code_unit CHR ''a'' + 10
      else code_unit c - code_unit CHR ''A'' + 10)"

definition is_base_digit :: "int \<Rightarrow> char \<Rightarrow> bool" where
  "is_base_digit b c \<longleftrightarrow>
     (if b = 16 then is_digit c \<or> (in_range CHR ''a'' CHR ''f'' c) \<or> in_range CHR ''A'' CHR ''F'' c
      else is_digit c \<and> digit_val c < b)"

definition nondecimal_literal :: "js_string \<Rightarrow> jsnum option" where
  "nondecimal_literal s =
     (case s of
        z # p # ds \<Rightarrow>
          let b = (if p \<in> {CHR ''x'', CHR ''X''} then 16
                   else if p \<in> {CHR ''o'', CHR ''O''} then 8
                   else if p \<in> {CHR ''b'', CHR ''B''} then 2 else 0)
          in if z = CHR ''0'' \<and> b \<noteq> 0 \<and> ds \<noteq> [] \<and> list_all (is_base_digit b) ds
             then Some (round_double (rat_of_int (digits_val b hex_val ds))) else None
      | _ \<Rightarrow> None)"

subsection \<open>ToNumber, isNaN, parseFloat\<close>

definition js_to_number :: "js_string \<Rightarrow> jsnum" where
  "js_to_number s =
     (let t = js_trim s in
      if t = [] then Num 0
      else case scan_decimal t of
             Some (v, []) \<Rightarrow> v
           | _ \<Rightarrow> (case nondecimal_literal t of Some v \<Rightarrow> v | None \<Rightarrow> NaN))"

definition js_isNaN :: "js_string \<Rightarrow> bool" where
  "js_isNaN s \<longleftrightarrow> js_to_number s = NaN"

definition parseFloat :: "js_string \<Rightarrow> jsnum" where
  "parseFloat s =
     (case scan_decimal (dropWhile is_js_space s) of Some (v, _) \<Rightarrow> v | None \<Rightarrow> NaN)"

text \<open>ToBoolean of a string: only the empty string is falsy.\<close>

definition js_truthy_str :: "js_string \<Rightarrow> bool" where
  "js_truthy_str s \<longleftrightarrow> s \<noteq> []"

subsection \<open>The value of a number input\<close>

text \<open>
  A valid floating-point number (HTML Living Standard 2.3.4.3): an optional
  \<open>-\<close>, digits, a fraction \<open>.\<close> followed by digits, or both, then an optional
  exponent: \<open>e\<close> or \<open>E\<close>, an optional sign and digits. The value of an
  \<open><input type="number">\<close> is such a string or the empty string.
\<close>

definition valid_exponent :: "js_string \<Rightarrow> bool" where
  "valid_exponent r =
     (case r of
        [] \<Rightarrow> True
      | e # u \<Rightarrow>
          (e = CHR ''e'' \<or> e = CHR ''E'') \<and> snd (split_sign u) \<noteq> [] \<and> list_all is_digit (snd (split_sign u)))"

definition valid_float_string :: "js_string \<Rightarrow> bool" where
  "valid_float_string s =
     (let t = (case s of c # u \<Rightarrow> if c = CHR ''-'' then u else s | [] \<Rightarrow> s);
          ds1 = takeWhile is_digit t; r1 = dropWhile is_digit t
      in case r1 of
           c # u \<Rightarrow>
             if c = CHR ''.'' then takeWhile is_digit u \<noteq> [] \<and> valid_exponent (dropWhile is_digit u)
             else ds1 \<noteq> [] \<and> valid_exponent r1
         | [] \<Rightarrow> ds1 \<noteq> [])"

subsection \<open>Sanitised input parses\<close>

lemma digit_not_space: "is_digit c \<Longrightarrow> \<not> is_js_space c"
  by (auto simp: is_digit_def in_range_def is_js_space_def)

lemma split_sign_suffix:
  "snd (split_sign u) = u \<or> (\<exists>d. u = d # snd (split_sign u) \<and> (d = CHR ''+'' \<or> d = CHR ''-''))"
  by (auto simp: split_sign_def split: list.splits)

lemma takeWhile_digits: "list_all is_digit v \<Longrightarrow> takeWhile is_digit v = v"
  by (simp add: list_all_iff)

lemma dropWhile_digits: "list_all is_digit v \<Longrightarrow> dropWhile is_digit v = []"
  by (simp add: list_all_iff)

lemma no_space_digits: "list_all is_digit v \<Longrightarrow> list_all (\<lambda>c. \<not> is_js_space c) v"
  by (auto simp: list_all_iff digit_not_space)

lemma scan_exponent_valid:
  assumes "valid_exponent r"
  shows "snd (scan_exponent r) = [] \<and> list_all (\<lambda>c. \<not> is_js_space c) r"
proof (cases r)
  case Nil
  then show ?thesis by (simp add: scan_exponent_def)
next
  case (Cons e u)
  obtain sg v where sp: "split_sign u = (sg, v)" by (cases "split_sign u")
  have e: "e = CHR ''e'' \<or> e = CHR ''E''" and v: "v \<noteq> []" "list_all is_digit v"
    using assms Cons sp by (auto simp: valid_exponent_def)
  have "snd (scan_exponent r) = []"
    using Cons e sp v by (auto simp: scan_exponent_def takeWhile_digits dropWhile_digits)
  moreover have "list_all (\<lambda>c. \<not> is_js_space c) u"
    using split_sign_suffix [of u] no_space_digits [OF v(2)] sp
    by (auto simp: is_js_space_def)
  ultimately show ?thesis using Cons e by (auto simp: is_js_space_def)
qed


lemma take_Infinity_hd: "take 8 t = ''Infinity'' \<Longrightarrow> t \<noteq> [] \<and> hd t = CHR ''I''"
  by (cases t) auto

lemma not_Infinity:
  assumes "t \<noteq> []" and "is_digit (hd t) \<or> hd t = CHR ''.''"
  shows "take 8 t \<noteq> ''Infinity''"
  using assms take_Infinity_hd [of t] by (auto simp: is_digit_def in_range_def)

lemma hd_digits_prefix:
  "takeWhile is_digit t \<noteq> [] \<Longrightarrow> t \<noteq> [] \<and> is_digit (hd t)"
  by (cases t) (auto split: if_splits)

lemma unsigned_valid:
  assumes "case dropWhile is_digit t of
             c # u \<Rightarrow>
               if c = CHR ''.'' then takeWhile is_digit u \<noteq> [] \<and> valid_exponent (dropWhile is_digit u)
               else takeWhile is_digit t \<noteq> [] \<and> valid_exponent (dropWhile is_digit t)
           | [] \<Rightarrow> takeWhile is_digit t \<noteq> []"
  shows "(\<exists>v. scan_unsigned t = Some (v, []) \<and> v \<noteq> NaN) \<and> list_all (\<lambda>c. \<not> is_js_space c) t"
proof -
  let ?ds1 = "takeWhile is_digit t" and ?r1 = "dropWhile is_digit t"
  have t: "t = ?ds1 @ ?r1" by simp
  have sp1: "list_all (\<lambda>c. \<not> is_js_space c) ?ds1"
    by (rule no_space_digits) (auto simp: list_all_iff dest: set_takeWhileD)
  show ?thesis
  proof (cases ?r1)
    case Nil
    with assms have "?ds1 \<noteq> []" by simp
    then have "take 8 t \<noteq> ''Infinity''" using hd_digits_prefix not_Infinity by blast
    then have "scan_unsigned t = Some (round_double (rat_of_int (digits_val 10 digit_val ?ds1)), [])"
      using \<open>?ds1 \<noteq> []\<close> by (simp add: scan_unsigned_def scan_exponent_def Let_def Nil del: dropWhile_eq_Nil_conv)
    moreover have "list_all (\<lambda>c. \<not> is_js_space c) t" using t Nil sp1 by simp
    ultimately show ?thesis by simp
  next
    case (Cons c u)
    show ?thesis
    proof (cases "c = CHR ''.''")
    case True
    with assms Cons have ds2: "takeWhile is_digit u \<noteq> []"
      and ex: "valid_exponent (dropWhile is_digit u)" by simp_all
    have "t \<noteq> [] \<and> (is_digit (hd t) \<or> hd t = CHR ''.'')"
      using t Cons True hd_digits_prefix [of t] by (cases ?ds1) auto
    then have "take 8 t \<noteq> ''Infinity''" using not_Infinity by blast
    moreover obtain ex' where "scan_exponent (dropWhile is_digit u) = (ex', [])"
      using scan_exponent_valid [OF ex] by (cases "scan_exponent (dropWhile is_digit u)") auto
    ultimately have "\<exists>v. scan_unsigned t = Some (v, [])"
      using Cons True ds2 by (simp add: scan_unsigned_def Let_def)
    then have "\<exists>v. scan_unsigned t = Some (v, []) \<and> v \<noteq> NaN"
      by (auto simp: scan_unsigned_def Let_def split: if_splits prod.splits)
    moreover have "list_all (\<lambda>c. \<not> is_js_space c) u"
    proof -
      have "u = takeWhile is_digit u @ dropWhile is_digit u" by simp
      moreover have "list_all (\<lambda>c. \<not> is_js_space c) (takeWhile is_digit u)"
        by (rule no_space_digits) (auto simp: list_all_iff dest: set_takeWhileD)
      ultimately show ?thesis using scan_exponent_valid [OF ex]
        by (metis list_all_append)
    qed
    moreover have "list_all (\<lambda>c. \<not> is_js_space c) t"
    proof -
      have "list_all (\<lambda>c. \<not> is_js_space c) (?ds1 @ ?r1)"
        using sp1 \<open>list_all (\<lambda>c. \<not> is_js_space c) u\<close> Cons True by (simp add: is_js_space_def)
      then show ?thesis by simp
    qed
    ultimately show ?thesis by simp
  next
    case False
    with assms Cons have ds1: "?ds1 \<noteq> []" and ex: "valid_exponent ?r1" by simp_all
    then have "take 8 t \<noteq> ''Infinity''" using hd_digits_prefix not_Infinity by blast
    moreover obtain ex' where "scan_exponent ?r1 = (ex', [])"
      using scan_exponent_valid [OF ex] by (cases "scan_exponent ?r1") auto
    ultimately have "\<exists>v. scan_unsigned t = Some (v, [])"
      using Cons False ds1 by (simp add: scan_unsigned_def Let_def)
    then have "\<exists>v. scan_unsigned t = Some (v, []) \<and> v \<noteq> NaN"
      by (auto simp: scan_unsigned_def Let_def split: if_splits prod.splits)
    moreover have "list_all (\<lambda>c. \<not> is_js_space c) t"
      using t sp1 scan_exponent_valid [OF ex] by (metis list_all_append)
    ultimately show ?thesis by simp
  qed
  qed
qed


lemma no_space_trim:
  assumes "list_all (\<lambda>c. \<not> is_js_space c) s"
  shows "dropWhile is_js_space s = s \<and> js_trim s = s"
proof -
  have d: "dropWhile is_js_space xs = xs" if "list_all (\<lambda>c. \<not> is_js_space c) xs" for xs
  using that by (cases xs) auto
  have "list_all (\<lambda>c. \<not> is_js_space c) (rev s)" using assms by (simp add: list_all_iff)
  then show ?thesis using d [OF assms] d [of "rev s"] by (simp add: js_trim_def)
qed

lemma valid_float_scan:
  assumes "valid_float_string s"
  shows "(\<exists>v. scan_decimal s = Some (v, []) \<and> v \<noteq> NaN) \<and> list_all (\<lambda>c. \<not> is_js_space c) s"
proof -
  obtain c u where s: "s = c # u"
    using assms by (cases s) (simp_all add: valid_float_string_def)
  show ?thesis
  proof (cases "c = CHR ''-''")
    case True
    then have t: "(case s of c # u \<Rightarrow> if c = CHR ''-'' then u else s | [] \<Rightarrow> s) = u"
      using s by simp
    have "(\<exists>v. scan_unsigned u = Some (v, []) \<and> v \<noteq> NaN) \<and> list_all (\<lambda>c. \<not> is_js_space c) u"
      by (rule unsigned_valid) (use assms in \<open>unfold valid_float_string_def Let_def t\<close>)
    then show ?thesis using s True
      by (auto simp: scan_decimal_def is_js_space_def js_neg.simps split: jsnum.splits)
  next
    case False
    then have t: "(case s of c # u \<Rightarrow> if c = CHR ''-'' then u else s | [] \<Rightarrow> s) = s"
      using s by simp
    have u: "(\<exists>v. scan_unsigned s = Some (v, []) \<and> v \<noteq> NaN) \<and> list_all (\<lambda>c. \<not> is_js_space c) s"
      by (rule unsigned_valid) (use assms in \<open>unfold valid_float_string_def Let_def t\<close>)
    have "c \<noteq> CHR ''+''"
    proof
      assume c: "c = CHR ''+''"
      have "\<not> is_digit CHR ''+''" by (simp add: is_digit_def in_range_def)
      with c assms s show False by (simp add: valid_float_string_def Let_def)
    qed
    then show ?thesis using u s False by (simp add: scan_decimal_def)
  qed
qed

lemma valid_float_to_number:
  assumes "valid_float_string s"
  shows "\<exists>v. js_to_number s = v \<and> parseFloat s = v \<and> v \<noteq> NaN"
proof -
  obtain v where v: "scan_decimal s = Some (v, [])" "v \<noteq> NaN"
    and ns: "list_all (\<lambda>c. \<not> is_js_space c) s"
    using valid_float_scan [OF assms] by blast
  have "s \<noteq> []" using assms by (auto simp: valid_float_string_def)
  moreover have "js_trim s = s" "dropWhile is_js_space s = s" using no_space_trim [OF ns] by simp_all
  ultimately show ?thesis using v by (simp add: js_to_number_def parseFloat_def)
qed

lemma valid_float_not_NaN: "valid_float_string s \<Longrightarrow> \<not> js_isNaN s"
  using valid_float_to_number by (fastforce simp: js_isNaN_def)

lemma valid_float_nonempty: "valid_float_string s \<Longrightarrow> s \<noteq> []"
  by (auto simp: valid_float_string_def)

end
