(* ===== verification/Ledger.thy ===== *)
theory Ledger
  imports JS_Parse
begin

text \<open>
  The state of the \<open>App\<close> component (src/app/src/App.js) and its two ledger
  handlers. The component keeps six \<open>useState\<close> slots; the three that are
  persisted (\<open>donations\<close>, \<open>settledAmount\<close>, \<open>lastSettledAt\<close>) form the
  record \<open>ledger\<close>, and the record \<open>app\<close> extends it with the two form fields
  (the slots \<open>name\<close> and \<open>amount\<close>, here \<open>name_input\<close> and \<open>amount_input\<close>, so
  that they do not clash with the fields of a donation) and the expanded month.

  React commits the updates a handler queues before the next event is
  dispatched (a click or a keystroke is a discrete event), so a handler is a
  function from the committed state to the next committed state; the
  functional update \<open>setDonations(prev => [...prev, d])\<close> and the plain updates
  that follow it apply in the order written. The clock is a parameter: the two
  locale renderings of \<open>new Date()\<close> that the handlers use.
\<close>

record donation =
  name :: js_string
  amount :: jsnum
  timestamp :: js_string
  month :: js_string

record ledger =
  donations :: "donation list"
  settledAmount :: jsnum
  lastSettledAt :: "js_string option"

record app = ledger +
  name_input :: js_string
  amount_input :: js_string
  expandedMonth :: "js_string option"

record clock =
  locale_datetime :: js_string
  locale_month :: js_string

definition SETTLE_AMOUNT :: jsnum where
  "SETTLE_AMOUNT = Num 6000"

definition app_init :: app where
  "app_init =
     \<lparr>donations = [], settledAmount = Num 0, lastSettledAt = None,
      name_input = [], amount_input = [], expandedMonth = None\<rparr>"

subsection \<open>Derived values of a render\<close>

definition totalAmount :: "'a ledger_scheme \<Rightarrow> jsnum" where
  "totalAmount s = foldl (\<lambda>sum entry. sum + amount entry) 0 (donations s)"

definition remaining :: "'a ledger_scheme \<Rightarrow> jsnum" where
  "remaining s = totalAmount s - settledAmount s"

subsection \<open>Handlers\<close>

definition handleAddDonation :: "clock \<Rightarrow> app \<Rightarrow> app" where
  "handleAddDonation now s =
     (if \<not> js_truthy_str (name_input s) \<or> \<not> js_truthy_str (amount_input s)
         \<or> js_isNaN (amount_input s) then s
      else
        let newDonation =
              \<lparr>name = name_input s, amount = parseFloat (amount_input s),
               timestamp = locale_datetime now, month = locale_month now\<rparr>
        in s\<lparr>donations := donations s @ [newDonation], name_input := [], amount_input := []\<rparr>)"

definition handleSettle :: "clock \<Rightarrow> app \<Rightarrow> app" where
  "handleSettle now s =
     (if SETTLE_AMOUNT \<le> remaining s then
        let newSettled = settledAmount s + SETTLE_AMOUNT
        in s\<lparr>settledAmount := newSettled, lastSettledAt := Some (locale_datetime now)\<rparr>
      else s)"

text \<open>
  The spec's invariant on the settled amount, as far as binary64 can keep it: a
  non-negative integer multiple of 6000, unless the amount has grown past
  \<open>2^53 - 6000\<close>, beyond which a settle is no longer exact (or infinite).
\<close>

definition settled_ok :: "jsnum \<Rightarrow> bool" where
  "settled_ok x =
     (case x of
        Num r \<Rightarrow> 0 \<le> r \<and> ((r = of_int \<lfloor>r\<rfloor> \<and> 6000 dvd \<lfloor>r\<rfloor>) \<or> 2 ^ 53 - 6000 < r)
      | PInf \<Rightarrow> True
      | _ \<Rightarrow> False)"

text \<open>
  The \<open>onChange\<close> handlers of the two form inputs store the input's value.
  The browser hands the amount input's value over already sanitised (see
  \<open>valid_float_string\<close> in JS_Parse), which the page-level step relation
  records as the precondition of the event.
\<close>

definition onNameChange :: "js_string \<Rightarrow> app \<Rightarrow> app" where
  "onNameChange v s = s\<lparr>name_input := v\<rparr>"

definition onAmountChange :: "js_string \<Rightarrow> app \<Rightarrow> app" where
  "onAmountChange v s = s\<lparr>amount_input := v\<rparr>"

subsection \<open>Functional behaviour of the handlers\<close>

text \<open>
  C1. A contribution with a non-empty name and an amount that ToNumber does not
  turn into NaN is appended: the list grows by exactly one and the running total
  becomes the old total plus \<open>parseFloat(amount)\<close>, in JavaScript addition.
\<close>

theorem handleAddDonation_accepts:
  assumes "name_input s \<noteq> []" and "amount_input s \<noteq> []" and "\<not> js_isNaN (amount_input s)"
  shows "length (donations (handleAddDonation now s)) = Suc (length (donations s))
    \<and> totalAmount (handleAddDonation now s) = totalAmount s + parseFloat (amount_input s)"
  using assms by (simp add: handleAddDonation_def js_truthy_str_def totalAmount_def Let_def)

text \<open>
  C2. An empty name, an empty amount or an amount that is not a number leaves the
  whole component state unchanged: the form fields are not even cleared.
\<close>

theorem handleAddDonation_rejects:
  assumes "name_input s = [] \<or> amount_input s = [] \<or> js_isNaN (amount_input s)"
  shows "handleAddDonation now s = s"
  using assms by (auto simp: handleAddDonation_def js_truthy_str_def)

text \<open>
  C3. A settle call changes the settled amount by nothing or by exactly 6000:
  while the settled amount is an integer and the new one stays within
  \<open>2^53\<close>, the double addition \<open>settledAmount + SETTLE_AMOUNT\<close> is exact.
\<close>

theorem handleSettle_step:
  assumes "settledAmount s = Num (of_int k)" and "\<bar>k + 6000\<bar> \<le> 2 ^ 53"
  shows "settledAmount (handleSettle now s) = Num (of_int k)
       \<or> settledAmount (handleSettle now s) = Num (of_int (k + 6000))"
proof -
  have "js_add (Num (of_int k)) (Num (of_int 6000)) = Num (of_int (k + 6000))"
    using assms(2) by (rule js_add_int)
  then show ?thesis using assms(1)
    by (simp add: handleSettle_def SETTLE_AMOUNT_def Let_def plus_jsnum_def)
qed

text \<open>
  C4. The handler guards its own precondition: when the remaining balance is
  below 6000, any number of settle calls, at any clock readings, change nothing.
\<close>

theorem handleSettle_guard:
  assumes "remaining s < SETTLE_AMOUNT"
  shows "fold handleSettle cs s = s"
proof (induction cs)
  case Nil
  then show ?case by simp
next
  case (Cons c cs)
  have "\<not> SETTLE_AMOUNT \<le> remaining s"
    using assms by (cases "remaining s") (auto simp: SETTLE_AMOUNT_def js_simps)
  then show ?case using Cons by (simp add: handleSettle_def)
qed

subsection \<open>Exact arithmetic on whole amounts\<close>

lemma foldl_add_exact:
  assumes "map amount ds = map (\<lambda>k. Num (of_int k)) ks" and "\<bar>a\<bar> + sum_list (map abs ks) \<le> 2 ^ 53"
  shows "foldl (\<lambda>sum entry. sum + amount entry) (Num (of_int a)) ds = Num (of_int (a + sum_list ks))"
  using assms
proof (induction ds arbitrary: a ks)
  case Nil
  then show ?case by simp
next
  case (Cons d ds)
  then obtain k ks' where ks: "ks = k # ks'" and k: "amount d = Num (of_int k)"
    and ds: "map amount ds = map (\<lambda>k. Num (of_int k)) ks'"
    by (cases ks) auto
  have b: "\<bar>a + k\<bar> + sum_list (map abs ks') \<le> 2 ^ 53"
    using Cons.prems(2) ks abs_triangle_ineq [of a k] by simp
  then have "\<bar>a + k\<bar> \<le> 2 ^ 53"
    using sum_list_nonneg [of "map abs ks'"] by fastforce
  then have "Num (of_int a) + amount d = Num (of_int (a + k))"
    unfolding k plus_jsnum_def by (rule js_add_int)
  then show ?case using Cons.IH [OF ds b] ks by (simp add: add.assoc)
qed

lemma handleAddDonation_valid:
  assumes "name_input s \<noteq> []" and "valid_float_string (amount_input s)"
  shows "handleAddDonation now s =
    s\<lparr>donations := donations s @ [\<lparr>name = name_input s, amount = js_to_number (amount_input s),
                                   timestamp = locale_datetime now, month = locale_month now\<rparr>],
      name_input := [], amount_input := []\<rparr>"
proof -
  obtain v where "js_to_number (amount_input s) = v" "parseFloat (amount_input s) = v"
    using valid_float_to_number [OF assms(2)] by blast
  then show ?thesis
    using assms valid_float_not_NaN [OF assms(2)] valid_float_nonempty [OF assms(2)]
    by (simp add: handleAddDonation_def js_truthy_str_def Let_def)
qed

text \<open>
  C11. A settle lowers the remaining balance by exactly 6000 and records the
  settle time, whenever the balance is at least 6000 and the total and the
  settled amount are whole amounts within \<open>2^53\<close>.
\<close>

theorem handleSettle_remaining:
  assumes "totalAmount s = Num (of_int t)" and "settledAmount s = Num (of_int a)"
    and "0 \<le> a" and "a + 6000 \<le> t" and "t \<le> 2 ^ 53"
  shows "remaining (handleSettle now s) = Num (of_int (t - a - 6000))
    \<and> lastSettledAt (handleSettle now s) = Some (locale_datetime now)"
proof -
  have r: "remaining s = Num (of_int (t - a))"
    unfolding remaining_def assms(1,2) minus_jsnum_def using assms by (intro js_sub_int) simp
  have g: "SETTLE_AMOUNT \<le> remaining s"
    using assms(4) by (simp add: r SETTLE_AMOUNT_def js_simps)
  have "settledAmount s + SETTLE_AMOUNT = Num (of_int (a + 6000))"
    unfolding assms(2) SETTLE_AMOUNT_def plus_jsnum_def using assms
    by (metis js_add_int abs_of_nonneg add_nonneg_nonneg order_trans zero_le_numeral of_int_numeral)
  moreover have "js_sub (Num (of_int t)) (Num (of_int (a + 6000))) = Num (of_int (t - a - 6000))"
    using assms js_sub_int [of t "a + 6000"] by (simp add: algebra_simps)
  ultimately show ?thesis
    using g assms(1) by (simp add: handleSettle_def remaining_def totalAmount_def Let_def minus_jsnum_def)
qed

text \<open>
  C12. Where the spec's decimal addition is kept: a total of whole amounts is
  their exact sum as long as the sum of their magnitudes stays within \<open>2^53\<close>.
\<close>

theorem totalAmount_exact_integers:
  assumes "map amount (donations s) = map (\<lambda>k. Num (of_int k)) ks"
    and "sum_list (map abs ks) \<le> 2 ^ 53"
  shows "totalAmount s = Num (of_int (sum_list ks))"
  using foldl_add_exact [OF assms(1), of 0] assms(2)
  by (simp add: totalAmount_def zero_jsnum_def)

text \<open>
  C13. The page can make the remaining balance negative: once the balance is
  fully settled, a contribution of any negative whole amount that the number
  input can hold is accepted and leaves the remaining balance at that amount.
\<close>

theorem negative_remaining_reachable:
  assumes "name_input s \<noteq> []" and "valid_float_string (amount_input s)"
    and "js_to_number (amount_input s) = Num (of_int k)" and "k < 0" and "- (2 ^ 53) \<le> k"
    and "totalAmount s = Num (of_int t)" and "settledAmount s = Num (of_int t)"
    and "0 \<le> t" and "t \<le> 2 ^ 53"
  shows "remaining (handleAddDonation now s) = Num (of_int k) \<and> remaining (handleAddDonation now s) < 0"
proof -
  have "js_add (Num (of_int t)) (Num (of_int k)) = Num (of_int (t + k))"
    using assms by (intro js_add_int) simp
  moreover have "totalAmount (handleAddDonation now s) = totalAmount s + Num (of_int k)"
    using assms(1-3) by (simp add: handleAddDonation_valid totalAmount_def)
  ultimately have "totalAmount (handleAddDonation now s) = Num (of_int (t + k))"
    using assms(6) by (simp add: plus_jsnum_def del: of_int_add)
  moreover have "js_sub (Num (of_int (t + k))) (Num (of_int t)) = Num (of_int k)"
    using assms js_sub_int [of "t + k" t] by simp
  ultimately show ?thesis
    using assms by (simp add: handleAddDonation_valid remaining_def minus_jsnum_def js_simps)
qed

text \<open>
  C21. On the page a contribution records the number its amount field denotes:
  for a non-empty name and any value the number input can hold, the appended
  donation carries ToNumber of that value (the number the \<open>isNaN\<close> test read),
  which is not NaN, and both fields are cleared.
\<close>

theorem handleAddDonation_records_input:
  assumes "name_input s \<noteq> []" and "valid_float_string (amount_input s)"
  shows "donations (handleAddDonation now s) = donations s @ [\<lparr>name = name_input s,
            amount = js_to_number (amount_input s), timestamp = locale_datetime now,
            month = locale_month now\<rparr>]
    \<and> js_to_number (amount_input s) \<noteq> NaN
    \<and> name_input (handleAddDonation now s) = [] \<and> amount_input (handleAddDonation now s) = []"
  using handleAddDonation_valid [OF assms] valid_float_to_number [OF assms(2)] by auto

text \<open>
  C22. On the page, where the amount is empty or a valid floating-point number,
  the add handler appends a donation exactly when both fields are non-empty: the
  NaN test never rejects anything, so zero and negative amounts are accepted.
\<close>

theorem handleAddDonation_page_input:
  assumes "amount_input s = [] \<or> valid_float_string (amount_input s)"
  shows "donations (handleAddDonation now s) =
    (if name_input s \<noteq> [] \<and> amount_input s \<noteq> []
     then donations s @ [\<lparr>name = name_input s, amount = parseFloat (amount_input s),
                          timestamp = locale_datetime now, month = locale_month now\<rparr>]
     else donations s)"
proof (cases "amount_input s = []")
  case True
  then show ?thesis by (simp add: handleAddDonation_def js_truthy_str_def)
next
  case False
  with assms have "\<not> js_isNaN (amount_input s)"
    by (simp add: valid_float_not_NaN)
  then show ?thesis by (simp add: handleAddDonation_def js_truthy_str_def Let_def)
qed

subsection \<open>The settled amount\<close>

lemma settled_ok_add_unit:
  assumes "settled_ok x"
  shows "settled_ok (js_add x (Num 6000))"
proof (cases x)
  case (Num r)
  show ?thesis
  proof (cases "2 ^ 53 - 6000 < r")
    case True
    then have "js_le (Num (2 ^ 53)) (round_double (r + 6000))"
      by (intro round_double_ge_2p53) simp
    then show ?thesis using Num
      by (cases "round_double (r + 6000)") (auto simp: settled_ok_def)
  next
    case False
    with assms Num have r: "r = of_int \<lfloor>r\<rfloor>" "6000 dvd \<lfloor>r\<rfloor>" "0 \<le> r"
      by (auto simp: settled_ok_def)
    have "rat_of_int \<lfloor>r\<rfloor> \<le> 2 ^ 53 - 6000" using False r(1) by linarith
    then have "\<lfloor>r\<rfloor> \<le> 2 ^ 53 - 6000"
      by (metis of_int_le_iff of_int_diff of_int_numeral of_int_power)
    moreover have "0 \<le> \<lfloor>r\<rfloor>" using r(3) by simp
    ultimately have "\<bar>\<lfloor>r\<rfloor> + 6000\<bar> \<le> 2 ^ 53" by simp
    then have "js_add (Num (of_int \<lfloor>r\<rfloor>)) (Num (of_int 6000)) = Num (of_int (\<lfloor>r\<rfloor> + 6000))"
      by (rule js_add_int)
    then have "js_add x (Num 6000) = Num (of_int (\<lfloor>r\<rfloor> + 6000))" using Num r(1) by simp
    then show ?thesis using r by (simp add: settled_ok_def)
  qed
next
  case PInf
  then show ?thesis by (simp add: settled_ok_def)
qed (use assms in \<open>simp_all add: settled_ok_def\<close>)

text \<open>
  C23. A settle keeps the settled amount a non-negative multiple of 6000 (or
  beyond the exact range): with the guard or without it, since the added unit is
  exact below \<open>2^53\<close> and rounding never drops below \<open>2^53\<close> above it.
\<close>

theorem handleSettle_settled_ok:
  assumes "settled_ok (settledAmount s)"
  shows "settled_ok (settledAmount (handleSettle now s))"
  using assms settled_ok_add_unit [OF assms]
  by (simp add: handleSettle_def SETTLE_AMOUNT_def plus_jsnum_def Let_def)

subsection \<open>Witnesses\<close>

text \<open>The handler theorems at concrete states: Alice's contribution of 3000 is
  accepted, Carl's amount \<open>abc\<close> is refused, a balance of 6500 can be settled
  and a balance of 500 cannot.\<close>

theorem handleAddDonation_accepts_witness:
  "length (donations (handleAddDonation \<lparr>locale_datetime = ''1/5/2025, 10:00:00 AM'', locale_month = ''January 2025''\<rparr>
      (app_init\<lparr>name_input := ''Alice'', amount_input := ''3000''\<rparr>))) = 1
   \<and> totalAmount (handleAddDonation \<lparr>locale_datetime = ''1/5/2025, 10:00:00 AM'', locale_month = ''January 2025''\<rparr>
      (app_init\<lparr>name_input := ''Alice'', amount_input := ''3000''\<rparr>)) = Num 3000"
proof -
  have n: "\<not> js_isNaN ''3000''" and p: "parseFloat ''3000'' = Num 3000" by code_simp+
  show ?thesis
    using handleAddDonation_accepts [of "app_init\<lparr>name_input := ''Alice'', amount_input := ''3000''\<rparr>"] n p
    by (simp add: app_init_def totalAmount_def js_simps)
qed

theorem handleAddDonation_rejects_witness:
  "handleAddDonation \<lparr>locale_datetime = ''1/5/2025, 10:00:00 AM'', locale_month = ''January 2025''\<rparr>
      (app_init\<lparr>name_input := ''Carl'', amount_input := ''abc''\<rparr>)
   = app_init\<lparr>name_input := ''Carl'', amount_input := ''abc''\<rparr>"
proof -
  have "js_isNaN ''abc''" by code_simp
  then show ?thesis by (intro handleAddDonation_rejects) simp
qed

theorem handleSettle_step_witness:
  "settledAmount (handleSettle \<lparr>locale_datetime = ''1/5/2025, 10:00:00 AM'', locale_month = ''January 2025''\<rparr>
      (app_init\<lparr>donations := [\<lparr>name = ''Bob'', amount = Num 6500, timestamp = ''t'', month = ''January 2025''\<rparr>]\<rparr>))
   \<in> {Num 0, Num 6000}"
  using handleSettle_step [of "app_init\<lparr>donations := [\<lparr>name = ''Bob'', amount = Num 6500, timestamp = ''t'', month = ''January 2025''\<rparr>]\<rparr>" 0]
  by (simp add: app_init_def)

theorem handleSettle_guard_witness:
  "fold handleSettle [\<lparr>locale_datetime = ''a'', locale_month = ''m''\<rparr>, \<lparr>locale_datetime = ''b'', locale_month = ''m''\<rparr>]
     (app_init\<lparr>donations := [\<lparr>name = ''Bob'', amount = Num 500, timestamp = ''t'', month = ''January 2025''\<rparr>]\<rparr>)
   = app_init\<lparr>donations := [\<lparr>name = ''Bob'', amount = Num 500, timestamp = ''t'', month = ''January 2025''\<rparr>]\<rparr>"
proof (rule handleSettle_guard)
  show "remaining (app_init\<lparr>donations := [\<lparr>name = ''Bob'', amount = Num 500, timestamp = ''t'', month = ''January 2025''\<rparr>]\<rparr>) < SETTLE_AMOUNT"
    by (simp add: remaining_def totalAmount_def app_init_def SETTLE_AMOUNT_def js_simps js_sub_def)
qed

theorem handleSettle_remaining_witness:
  "remaining (handleSettle \<lparr>locale_datetime = ''a'', locale_month = ''m''\<rparr>
      (app_init\<lparr>donations := [\<lparr>name = ''Bob'', amount = Num 6500, timestamp = ''t'', month = ''January 2025''\<rparr>]\<rparr>))
     = Num 500
   \<and> lastSettledAt (handleSettle \<lparr>locale_datetime = ''a'', locale_month = ''m''\<rparr>
      (app_init\<lparr>donations := [\<lparr>name = ''Bob'', amount = Num 6500, timestamp = ''t'', month = ''January 2025''\<rparr>]\<rparr>))
     = Some ''a''"
  using handleSettle_remaining [of "app_init\<lparr>donations := [\<lparr>name = ''Bob'', amount = Num 6500, timestamp = ''t'', month = ''January 2025''\<rparr>]\<rparr>"
      6500 0 "\<lparr>locale_datetime = ''a'', locale_month = ''m''\<rparr>"]
  by (simp add: app_init_def totalAmount_def js_simps)

theorem totalAmount_exact_integers_witness:
  "totalAmount (app_init\<lparr>donations :=
      [\<lparr>name = ''Alice'', amount = Num 3000, timestamp = ''t1'', month = ''January 2025''\<rparr>,
       \<lparr>name = ''Bob'', amount = Num (-500), timestamp = ''t2'', month = ''January 2025''\<rparr>]\<rparr>) = Num 2500"
  using totalAmount_exact_integers [of "app_init\<lparr>donations :=
      [\<lparr>name = ''Alice'', amount = Num 3000, timestamp = ''t1'', month = ''January 2025''\<rparr>,
       \<lparr>name = ''Bob'', amount = Num (-500), timestamp = ''t2'', month = ''January 2025''\<rparr>]\<rparr>" "[3000, -500]"]
  by (simp add: app_init_def)

theorem negative_remaining_reachable_witness:
  "remaining (handleAddDonation \<lparr>locale_datetime = ''a'', locale_month = ''m''\<rparr>
      (app_init\<lparr>donations := [\<lparr>name = ''Alice'', amount = Num 6000, timestamp = ''t'', month = ''January 2025''\<rparr>],
                 settledAmount := Num 6000, name_input := ''Dan'', amount_input := ''-100''\<rparr>)) = Num (-100)"
proof -
  have v: "valid_float_string ''-100''" and n: "js_to_number ''-100'' = Num (of_int (-100))" by code_simp+
  show ?thesis
    using negative_remaining_reachable [of "app_init\<lparr>donations := [\<lparr>name = ''Alice'', amount = Num 6000, timestamp = ''t'', month = ''January 2025''\<rparr>],
                 settledAmount := Num 6000, name_input := ''Dan'', amount_input := ''-100''\<rparr>" "-100" 6000
        "\<lparr>locale_datetime = ''a'', locale_month = ''m''\<rparr>"] v n
    by (simp add: app_init_def totalAmount_def js_simps)
qed

theorem handleAddDonation_records_input_witness:
  "donations (handleAddDonation \<lparr>locale_datetime = ''a'', locale_month = ''m''\<rparr>
      (app_init\<lparr>name_input := ''Dan'', amount_input := ''-1.5e3''\<rparr>))
   = [\<lparr>name = ''Dan'', amount = Num (-1500), timestamp = ''a'', month = ''m''\<rparr>]"
proof -
  have v: "valid_float_string ''-1.5e3''" and n: "js_to_number ''-1.5e3'' = Num (-1500)" by code_simp+
  show ?thesis
    using handleAddDonation_records_input [of "app_init\<lparr>name_input := ''Dan'', amount_input := ''-1.5e3''\<rparr>"
        "\<lparr>locale_datetime = ''a'', locale_month = ''m''\<rparr>"] v n
    by (simp add: app_init_def)
qed

end
