(* ===== verification/Grouping.thy ===== *)
theory Grouping
  imports Ledger "HOL-Library.AList"
begin

text \<open>
  The month view of App.js: the \<open>groupedDonations\<close> reduce, the order in which
  \<open>Object.entries\<close> yields the groups, the per-month toggle and the list that an
  expanded group shows. The accumulator \<open>acc\<close> is a plain JavaScript object:
  its own properties are an association list in creation order, and a key that
  is not an own property is looked up on \<open>Object.prototype\<close>, whose
  properties (\<open>constructor\<close>, \<open>toString\<close>, \<open>__proto__\<close>, ...) are truthy and
  have no \<open>push\<close> method. \<open>Object.entries\<close> lists the own keys that are array
  indices first, in ascending numeric order, and the other keys in creation
  order (OrdinaryOwnPropertyKeys, ECMA-262 10.1.11.1).
\<close>

datatype js_error = TypeError js_string

type_synonym month_groups = "(js_string \<times> donation list) list"

definition proto_keys :: "js_string list" where
  "proto_keys =
     [''constructor'', ''__proto__'', ''hasOwnProperty'', ''isPrototypeOf'',
      ''propertyIsEnumerable'', ''toLocaleString'', ''toString'', ''valueOf'',
      ''__defineGetter__'', ''__defineSetter__'', ''__lookupGetter__'', ''__lookupSetter__'']"

subsection \<open>The reduce\<close>

text \<open>
  One call of the reduce callback: \<open>if (!acc[m]) acc[m] = []; acc[m].push(d)\<close>.
  An own property holds an array (truthy even when empty) and gets the donation
  pushed; an inherited property is truthy, so no array is created, and
  \<open>push\<close> of a function or of \<open>Object.prototype\<close> throws.
\<close>

definition group_step :: "month_groups \<Rightarrow> donation \<Rightarrow> js_error + month_groups" where
  "group_step acc d =
     (case map_of acc (month d) of
        Some ds \<Rightarrow> Inr (AList.update (month d) (ds @ [d]) acc)
      | None \<Rightarrow>
          if month d \<in> set proto_keys then Inl (TypeError ''acc[donation.month].push is not a function'')
          else Inr (acc @ [(month d, [d])]))"

fun reduce_groups :: "month_groups \<Rightarrow> donation list \<Rightarrow> js_error + month_groups" where
  "reduce_groups acc [] = Inr acc"
| "reduce_groups acc (d # ds) =
     (case group_step acc d of Inl e \<Rightarrow> Inl e | Inr acc' \<Rightarrow> reduce_groups acc' ds)"

definition groupedDonations :: "'a ledger_scheme \<Rightarrow> js_error + month_groups" where
  "groupedDonations s = reduce_groups [] (donations s)"

subsection \<open>Object.entries\<close>

definition is_array_index :: "js_string \<Rightarrow> bool" where
  "is_array_index k \<longleftrightarrow>
     k \<noteq> [] \<and> list_all is_digit k \<and> (k = ''0'' \<or> hd k \<noteq> CHR ''0'')
     \<and> digits_val 10 digit_val k < 2 ^ 32 - 1"

definition object_entries :: "month_groups \<Rightarrow> month_groups" where
  "object_entries acc =
     sort_key (\<lambda>p. digits_val 10 digit_val (fst p)) (filter (\<lambda>p. is_array_index (fst p)) acc)
     @ filter (\<lambda>p. \<not> is_array_index (fst p)) acc"

subsection \<open>The month list of a render\<close>

text \<open>
  A group's button toggles it: \<open>setExpandedMonth(prev => prev === month ? null : month)\<close>.
  An expanded group shows its donations in reverse insertion order
  (\<open>monthDonations.slice().reverse()\<close>), a collapsed one shows none.
\<close>

definition toggleMonth :: "js_string \<Rightarrow> app \<Rightarrow> app" where
  "toggleMonth m s =
     s\<lparr>expandedMonth := (if expandedMonth s = Some m then None else Some m)\<rparr>"

definition month_view :: "app \<Rightarrow> js_error + (js_string \<times> bool \<times> donation list) list" where
  "month_view s =
     (case groupedDonations s of
        Inl e \<Rightarrow> Inl e
      | Inr acc \<Rightarrow>
          Inr (map (\<lambda>(m, ds). if expandedMonth s = Some m then (m, True, rev ds) else (m, False, []))
                 (object_entries acc)))"

subsection \<open>Reference grouping\<close>

text \<open>
  What the spec promises of the grouping: one group per distinct month label,
  in order of first insertion, holding that month's donations in insertion order.
\<close>

definition first_occurrences :: "'a list \<Rightarrow> 'a list" where
  "first_occurrences xs = rev (remdups (rev xs))"

definition group_spec :: "donation list \<Rightarrow> month_groups" where
  "group_spec ds =
     map (\<lambda>m. (m, filter (\<lambda>d. month d = m) ds)) (first_occurrences (map month ds))"

subsection \<open>The reduce against the reference grouping\<close>

lemma first_occurrences_snoc [simp]:
  "first_occurrences (xs @ [x]) = (if x \<in> set xs then first_occurrences xs else first_occurrences xs @ [x])"
  by (simp add: first_occurrences_def)

lemma set_first_occurrences [simp]: "set (first_occurrences xs) = set xs"
  by (simp add: first_occurrences_def)

lemma distinct_first_occurrences [simp]: "distinct (first_occurrences xs)"
  by (simp add: first_occurrences_def)

lemma reduce_groups_snoc:
  "reduce_groups acc (ds @ [d]) = (case reduce_groups acc ds of Inl e \<Rightarrow> Inl e | Inr a \<Rightarrow> group_step a d)"
  by (induction acc ds rule: reduce_groups.induct) (auto split: sum.splits)

lemma group_step_spec:
  "group_step (group_spec ds) d =
     (if month d \<notin> month ` set ds \<and> month d \<in> set proto_keys
      then Inl (TypeError ''acc[donation.month].push is not a function'')
      else Inr (group_spec (ds @ [d])))"
proof (cases "month d \<in> month ` set ds")
  case True
  then show ?thesis
    by (simp add: group_step_def group_spec_def map_of_graph update_graph fun_upd_def cong: map_cong)
next
  case False
  then show ?thesis
    by (auto simp add: group_step_def group_spec_def map_of_graph filter_empty_conv image_iff
        cong: map_cong)
qed

lemma reduce_groups_spec:
  "reduce_groups [] ds =
     (if list_ex (\<lambda>d. month d \<in> set proto_keys) ds
      then Inl (TypeError ''acc[donation.month].push is not a function'')
      else Inr (group_spec ds))"
proof (induction ds rule: rev_induct)
  case Nil
  then show ?case by (simp add: group_spec_def first_occurrences_def)
next
  case (snoc d ds)
  then show ?case
    by (auto simp: reduce_groups_snoc group_step_spec list_ex_iff)
qed

lemma fst_group_spec [simp]: "map fst (group_spec ds) = first_occurrences (map month ds)"
  by (simp add: group_spec_def comp_def)

lemma groupedDonations_Inr:
  "groupedDonations s = Inr g \<Longrightarrow> g = group_spec (donations s)"
  by (simp add: groupedDonations_def reduce_groups_spec split: if_splits)

lemma mset_object_entries [simp]: "mset (object_entries g) = mset g"
  using filter_partition_mset [of "\<lambda>p. is_array_index (fst p)" g]
  by (simp add: object_entries_def del: mset_filter)

lemma distinct_object_entries:
  "distinct (map fst g) \<Longrightarrow> distinct (map fst (object_entries g))"
  by (metis mset_eq_imp_distinct_iff mset_map mset_object_entries)

text \<open>
  C5. The \<open>groupedDonations\<close> reduce implements the reference grouping: one group
  per distinct month label in order of first insertion, each holding that
  month's donations in insertion order; if some label names a property of
  \<open>Object.prototype\<close>, the reduce throws a TypeError instead.
\<close>

theorem groupedDonations_refines:
  "groupedDonations s =
     (if list_ex (\<lambda>d. month d \<in> set proto_keys) (donations s)
      then Inl (TypeError ''acc[donation.month].push is not a function'')
      else Inr (group_spec (donations s)))"
  by (simp add: groupedDonations_def reduce_groups_spec)

text \<open>
  C6. When the reduce returns, its groups partition the donations: together they
  hold every donation exactly once (as a multiset), the month keys are distinct,
  and every group is non-empty and holds only donations of its month.
\<close>

theorem groupedDonations_partition:
  assumes "groupedDonations s = Inr g"
  shows "mset (concat (map snd g)) = mset (donations s) \<and> distinct (map fst g)
    \<and> (\<forall>(m, ds) \<in> set g. ds \<noteq> [] \<and> (\<forall>d \<in> set ds. month d = m))"
proof -
  have g: "g = group_spec (donations s)" using assms by (rule groupedDonations_Inr)
  have "mset (concat (map snd g)) = mset (donations s)"
    unfolding g group_spec_def
    by (simp add: comp_def mset_concat_filter_partition del: mset_filter)
  moreover have "\<forall>(m, ds) \<in> set g. ds \<noteq> [] \<and> (\<forall>d \<in> set ds. month d = m)"
    by (auto simp: g group_spec_def filter_empty_conv)
  ultimately show ?thesis by (simp add: g)
qed

text \<open>
  C7. When no month label is an array index, \<open>Object.entries\<close> lists the groups
  in the order in which their months first occur in the donation list.
\<close>

theorem month_order_first_insertion:
  assumes "\<not> list_ex (\<lambda>d. is_array_index (month d)) (donations s)"
    and "groupedDonations s = Inr g"
  shows "map fst (object_entries g) = first_occurrences (map month (donations s))"
proof -
  have g: "g = group_spec (donations s)" using assms(2) by (rule groupedDonations_Inr)
  have none: "\<forall>p \<in> set g. \<not> is_array_index (fst p)"
    using assms(1) by (auto simp: g group_spec_def list_ex_iff)
  then have "filter (\<lambda>p. is_array_index (fst p)) g = []"
    by (simp add: filter_empty_conv)
  moreover have "filter (\<lambda>p. \<not> is_array_index (fst p)) g = g"
    using none by simp
  ultimately have "object_entries g = g"
    by (simp add: object_entries_def)
  then show ?thesis by (simp add: g)
qed


subsection \<open>The rendered month list\<close>

lemma month_view_Inr:
  "month_view s = Inr v \<Longrightarrow> \<exists>g. groupedDonations s = Inr g \<and>
     v = map (\<lambda>(m, ds). if expandedMonth s = Some m then (m, True, rev ds) else (m, False, [])) (object_entries g)"
  by (auto simp: month_view_def split: sum.splits)

text \<open>
  C8. A render expands at most one month group.
\<close>

theorem month_view_one_expanded:
  assumes "month_view s = Inr v"
  shows "length (filter (\<lambda>(m, e, ds). e) v) \<le> 1"
proof -
  obtain g where g: "groupedDonations s = Inr g" and v:
    "v = map (\<lambda>(m, ds). if expandedMonth s = Some m then (m, True, rev ds) else (m, False, [])) (object_entries g)"
    using month_view_Inr [OF assms] by blast
  have d: "distinct (map fst (object_entries g))"
    using groupedDonations_Inr [OF g] by (simp add: distinct_object_entries)
  have "\<And>xs. length (filter (\<lambda>(m, e, ds). e)
      (map (\<lambda>(m, ds). if expandedMonth s = Some m then (m, True, rev ds) else (m, False, [])) xs))
    = length (filter (\<lambda>p. expandedMonth s = Some (fst p)) xs)"
    subgoal for xs by (induction xs) (auto split: if_splits)
    done
  then have "length (filter (\<lambda>(m, e, ds). e) v) = length (filter (\<lambda>p. expandedMonth s = Some (fst p)) (object_entries g))"
    by (simp add: v)
  also have "\<dots> \<le> 1"
  proof (cases "expandedMonth s")
    case None
    then show ?thesis by simp
  next
    case (Some m)
    then show ?thesis using distinct_fst_filter_le1 [OF d, of m] by (simp add: eq_commute)
  qed
  finally show ?thesis .
qed

text \<open>
  C9. Pressing a month's button expands that month if it was not expanded and
  collapses it if it was; every other group is collapsed afterwards, and an
  expanded group lists its donations most recent first.
\<close>

theorem toggleMonth_view:
  assumes "groupedDonations s = Inr g"
  shows "month_view (toggleMonth m s) =
    Inr (map (\<lambda>(k, ds). if k = m \<and> expandedMonth s \<noteq> Some m then (k, True, rev ds) else (k, False, []))
           (object_entries g))"
  using assms by (auto simp: month_view_def toggleMonth_def groupedDonations_def)

lemma map_fst_filter: "map fst (filter (\<lambda>p. P (fst p)) xs) = filter P (map fst xs)"
  by (induction xs) auto

text \<open>
  C10. Group order is first-insertion order only for labels that are not array
  indices: \<open>Object.entries\<close> lists every month label that is an array index
  (such as \<open>2025\<close>, which a hydrated document may hold) first, once each and in
  ascending numeric order, and only then the other labels in the order in which
  they first occur.
\<close>

theorem month_order_array_index_first:
  assumes "groupedDonations s = Inr g"
  shows "\<exists>xs. map fst (object_entries g)
                = xs @ filter (\<lambda>m. \<not> is_array_index m) (first_occurrences (map month (donations s)))
    \<and> sorted (map (digits_val 10 digit_val) xs) \<and> distinct xs
    \<and> set xs = {m \<in> set (map month (donations s)). is_array_index m}"
proof -
  have g: "g = group_spec (donations s)" using assms by (rule groupedDonations_Inr)
  define f where "f = (\<lambda>p :: js_string \<times> donation list. digits_val 10 digit_val (fst p))"
  define xs where "xs = map fst (sort_key f (filter (\<lambda>p. is_array_index (fst p)) g))"
  have e: "map fst (object_entries g) = xs @ filter (\<lambda>m. \<not> is_array_index m) (map fst g)"
    by (simp add: object_entries_def xs_def f_def map_fst_filter [of "\<lambda>m. \<not> is_array_index m"])
  have "sorted (map f (sort_key f (filter (\<lambda>p. is_array_index (fst p)) g)))"
    by (rule sorted_sort_key)
  then have "sorted (map (digits_val 10 digit_val) xs)"
    by (simp add: xs_def f_def comp_def)
  moreover have "distinct xs"
    using distinct_object_entries [of g] e by (simp add: g)
  moreover have "set xs = set (filter is_array_index (map fst g))"
    by (simp add: xs_def flip: map_fst_filter [of is_array_index])
  then have "set xs = {m \<in> set (map month (donations s)). is_array_index m}"
    by (simp add: g)
  ultimately show ?thesis using e by (auto simp: g)
qed

end
