(* ===== verification/Persistence.thy ===== *)
theory Persistence
  imports Grouping
begin

text \<open>
  The persistence of App.js and the page as a whole. The Firestore document
  \<open>donationsData/main\<close> is the store: absent, or a document whose three fields
  may each be missing (a missing field and \<open>null\<close> behave alike under the
  \<open>||\<close> defaults of the load effect). The page's state \<open>sys\<close> is the committed
  React state, the ref \<open>initialLoadDone\<close>, whether the \<open>getDoc\<close> of the mount
  effect is still outstanding, the store, and the list of documents this page has
  passed to \<open>setDoc\<close> (a record of calls, for stating ordering properties; the
  code keeps no such list).

  Timing follows React 18: the three setters called by \<open>fetchData\<close> after its
  \<open>await\<close> are batched, so \<open>finally\<close> sets the ref before the re-render, and
  the save effect of that render sees the load as done. A user event is handled,
  committed and its effects run before the next event. A \<open>setDoc\<close> either
  replaces the whole document or fails (logged and ignored); another session's
  \<open>setDoc\<close> is an event of its own. The read of \<open>getDoc\<close> returns the store
  as it is when the promise resolves, or fails.
\<close>

record fdoc =
  doc_donations :: "donation list option"
  doc_settledAmount :: "jsnum option"
  doc_lastSettledAt :: "js_string option"

record sys =
  page :: app
  initialLoadDone :: bool
  loading :: bool
  store :: "fdoc option"
  writes :: "fdoc list"

subsection \<open>Reading and writing the document\<close>

text \<open>
  \<open>setDonations(data.donations || [])\<close>, \<open>setSettledAmount(data.settledAmount || 0)\<close>,
  \<open>setLastSettledAt(data.lastSettledAt || null)\<close>: an array is truthy, a number
  is falsy when it is 0 or NaN, a string when it is empty.
\<close>

definition hydrate :: "fdoc \<Rightarrow> 'a ledger_scheme \<Rightarrow> 'a ledger_scheme" where
  "hydrate d s =
     s\<lparr>donations := (case doc_donations d of Some ds \<Rightarrow> ds | None \<Rightarrow> []),
       settledAmount := (case doc_settledAmount d of
                           Some n \<Rightarrow> if js_truthy_num n then n else Num 0
                         | None \<Rightarrow> Num 0),
       lastSettledAt := (case doc_lastSettledAt d of
                           Some t \<Rightarrow> if js_truthy_str t then Some t else None
                         | None \<Rightarrow> None)\<rparr>"

text \<open>The document \<open>setDoc\<close> writes: the three slots, in full.\<close>

definition snapshot :: "'a ledger_scheme \<Rightarrow> fdoc" where
  "snapshot s =
     \<lparr>doc_donations = Some (donations s), doc_settledAmount = Some (settledAmount s),
      doc_lastSettledAt = lastSettledAt s\<rparr>"

text \<open>
  The save effect's body: nothing before the load is done; otherwise one
  \<open>setDoc\<close> of the full state, which lands in the store or fails.
\<close>

definition saveData :: "bool \<Rightarrow> sys \<Rightarrow> sys" where
  "saveData ok \<sigma> =
     (if \<not> initialLoadDone \<sigma> then \<sigma>
      else \<sigma>\<lparr>writes := writes \<sigma> @ [snapshot (page \<sigma>)],
             store := (if ok then Some (snapshot (page \<sigma>)) else store \<sigma>)\<rparr>)"

text \<open>
  The dependencies \<open>[donations, settledAmount, lastSettledAt]\<close> compared with
  \<open>Object.is\<close>. The handlers replace the donations array only when they append
  to it, so comparing values is comparing identities here.
\<close>

definition deps_same :: "app \<Rightarrow> app \<Rightarrow> bool" where
  "deps_same s s' \<longleftrightarrow>
     donations s = donations s' \<and> settledAmount s = settledAmount s' \<and> lastSettledAt s = lastSettledAt s'"

text \<open>A commit of a new state, running the save effect when a dependency changed.\<close>

definition commit :: "bool \<Rightarrow> bool \<Rightarrow> app \<Rightarrow> sys \<Rightarrow> sys" where
  "commit changed ok s' \<sigma> = (if changed then saveData ok (\<sigma>\<lparr>page := s'\<rparr>) else \<sigma>\<lparr>page := s'\<rparr>)"

text \<open>
  The continuation of \<open>fetchData\<close> once \<open>getDoc\<close> settles: on a read error or an
  absent document no state is set; \<open>finally\<close> marks the load done in every case.
  A present document sets the three slots with new values (the array from the
  snapshot is a new object), so the re-render runs the save effect.
\<close>

definition fetchData :: "bool \<Rightarrow> bool \<Rightarrow> sys \<Rightarrow> sys" where
  "fetchData read_ok write_ok \<sigma> =
     (let \<sigma>' = \<sigma>\<lparr>initialLoadDone := True, loading := False\<rparr> in
      if \<not> read_ok then \<sigma>'
      else case store \<sigma> of
             None \<Rightarrow> \<sigma>'
           | Some d \<Rightarrow> commit True write_ok (hydrate d (page \<sigma>)) \<sigma>')"

subsection \<open>Events of the page\<close>

datatype ui_event =
    NameInput js_string
  | AmountInput js_string
  | AddClick clock
  | SettleClick clock
  | MonthClick js_string

fun handle_ui :: "ui_event \<Rightarrow> app \<Rightarrow> app" where
  "handle_ui (NameInput v) s = onNameChange v s"
| "handle_ui (AmountInput v) s = onAmountChange v s"
| "handle_ui (AddClick c) s = handleAddDonation c s"
| "handle_ui (SettleClick c) s = handleSettle c s"
| "handle_ui (MonthClick m) s = toggleMonth m s"

text \<open>
  When the browser can deliver an event: the number input's value is empty or a
  valid floating-point number; the settle button is \<open>disabled\<close> while
  \<open>remaining < SETTLE_AMOUNT\<close>; a month button exists only for a group of the
  rendered list (none when the render threw). A clock reading renders as
  non-empty strings.
\<close>

definition clock_ok :: "clock \<Rightarrow> bool" where
  "clock_ok c \<longleftrightarrow> locale_datetime c \<noteq> [] \<and> locale_month c \<noteq> []"

fun ui_enabled :: "ui_event \<Rightarrow> app \<Rightarrow> bool" where
  "ui_enabled (NameInput v) s = True"
| "ui_enabled (AmountInput v) s = (v = [] \<or> valid_float_string v)"
| "ui_enabled (AddClick c) s = clock_ok c"
| "ui_enabled (SettleClick c) s = (clock_ok c \<and> \<not> remaining s < SETTLE_AMOUNT)"
| "ui_enabled (MonthClick m) s =
     (case month_view s of Inr v \<Rightarrow> m \<in> set (map fst v) | Inl e \<Rightarrow> False)"

datatype event =
    UI ui_event bool
  | LoadResolved bool bool
  | ExternalWrite fdoc

fun sys_step :: "event \<Rightarrow> sys \<Rightarrow> sys" where
  "sys_step (UI e ok) \<sigma> =
     (let s' = handle_ui e (page \<sigma>) in commit (\<not> deps_same (page \<sigma>) s') ok s' \<sigma>)"
| "sys_step (LoadResolved r w) \<sigma> = fetchData r w \<sigma>"
| "sys_step (ExternalWrite d) \<sigma> = \<sigma>\<lparr>store := Some d\<rparr>"

fun enabled :: "event \<Rightarrow> sys \<Rightarrow> bool" where
  "enabled (UI e ok) \<sigma> = ui_enabled e (page \<sigma>)"
| "enabled (LoadResolved r w) \<sigma> = loading \<sigma>"
| "enabled (ExternalWrite d) \<sigma> = True"

text \<open>
  The mount: the initial state, \<open>fetchData\<close> started, and the first run of the
  save effect, which returns because the load is not done.
\<close>

definition mount :: "fdoc option \<Rightarrow> sys" where
  "mount d0 = \<lparr>page = app_init, initialLoadDone = False, loading = True, store = d0, writes = []\<rparr>"

fun run :: "event list \<Rightarrow> sys \<Rightarrow> sys option" where
  "run [] \<sigma> = Some \<sigma>"
| "run (e # es) \<sigma> = (if enabled e \<sigma> then run es (sys_step e \<sigma>) else None)"

text \<open>
  The well-formedness the load effect's defaults establish: the settled amount is
  a number (NaN is falsy and defaults to 0) and a settle time is never the empty
  string (it defaults to \<open>null\<close>).
\<close>

definition wf_ledger :: "'a ledger_scheme \<Rightarrow> bool" where
  "wf_ledger s \<longleftrightarrow> settledAmount s \<noteq> NaN \<and> lastSettledAt s \<noteq> Some []"

inductive reachable :: "sys \<Rightarrow> bool" where
  mounted: "reachable (mount d0)"
| step: "reachable \<sigma> \<Longrightarrow> enabled e \<sigma> \<Longrightarrow> reachable (sys_step e \<sigma>)"

text \<open>
  Documents whose settled amount keeps the spec's invariant (\<open>settled_ok\<close>
  whenever the load would take it), and the runs in which every document another
  session writes is of that kind.
\<close>

definition doc_ok :: "fdoc \<Rightarrow> bool" where
  "doc_ok d = (case doc_settledAmount d of Some n \<Rightarrow> js_truthy_num n \<longrightarrow> settled_ok n | None \<Rightarrow> True)"

fun admissible :: "event \<Rightarrow> bool" where
  "admissible (ExternalWrite d) = doc_ok d"
| "admissible e = True"

definition settled_inv :: "sys \<Rightarrow> bool" where
  "settled_inv \<sigma> \<longleftrightarrow> settled_ok (settledAmount (page \<sigma>)) \<and> pred_option doc_ok (store \<sigma>)"

subsection \<open>The ordering guarantee\<close>

lemma loadDone_sys_step:
  "initialLoadDone (sys_step e \<sigma>) \<longleftrightarrow> initialLoadDone \<sigma> \<or> (\<exists>r w. e = LoadResolved r w)"
  by (cases e) (auto simp: commit_def saveData_def fetchData_def Let_def split: option.splits)

lemma writes_before_load:
  "\<not> initialLoadDone \<sigma> \<Longrightarrow> \<not> initialLoadDone (sys_step e \<sigma>) \<Longrightarrow> writes (sys_step e \<sigma>) = writes \<sigma>"
  by (cases e) (auto simp: commit_def saveData_def fetchData_def Let_def split: option.splits)

lemma run_append: "run (xs @ ys) \<sigma> = (case run xs \<sigma> of None \<Rightarrow> None | Some \<sigma>' \<Rightarrow> run ys \<sigma>')"
  by (induction xs \<sigma> rule: run.induct) auto

lemma run_reachable: "run es \<sigma> = Some \<sigma>' \<Longrightarrow> reachable \<sigma> \<Longrightarrow> reachable \<sigma>'"
  by (induction es \<sigma> rule: run.induct) (auto intro: reachable.step split: if_splits)

text \<open>
  C14. The required ordering of the persistence adapter: in every reachable state
  of the page in which the load has not completed, the page has issued no
  \<open>setDoc\<close> at all, whatever the user did meanwhile.
\<close>

theorem no_write_before_load:
  assumes "reachable \<sigma>" and "\<not> initialLoadDone \<sigma>"
  shows "writes \<sigma> = []"
  using assms
proof (induction rule: reachable.induct)
  case (mounted d0)
  then show ?case by (simp add: mount_def)
next
  case (step \<sigma> e)
  then have "\<not> initialLoadDone \<sigma>" by (auto simp: loadDone_sys_step)
  with step show ?case by (simp add: writes_before_load)
qed

lemma snapshot_deps: "deps_same p q \<Longrightarrow> snapshot p = snapshot q"
  by (simp add: deps_same_def snapshot_def)

lemma sys_step_UI:
  "page (sys_step (UI e ok) \<sigma>) = handle_ui e (page \<sigma>)
   \<and> initialLoadDone (sys_step (UI e ok) \<sigma>) = initialLoadDone \<sigma>
   \<and> loading (sys_step (UI e ok) \<sigma>) = loading \<sigma>
   \<and> store (sys_step (UI e ok) \<sigma>) =
       (if ok \<and> initialLoadDone \<sigma> \<and> \<not> deps_same (page \<sigma>) (handle_ui e (page \<sigma>))
        then Some (snapshot (handle_ui e (page \<sigma>))) else store \<sigma>)
   \<and> writes (sys_step (UI e ok) \<sigma>) =
       writes \<sigma> @ (if initialLoadDone \<sigma> \<and> \<not> deps_same (page \<sigma>) (handle_ui e (page \<sigma>))
                   then [snapshot (handle_ui e (page \<sigma>))] else [])"
  by (simp add: commit_def saveData_def Let_def)

text \<open>
  C15. Sync on change: a user event issues exactly one \<open>setDoc\<close>, of the three
  slots of the new state, when the load is done and the event changed one of
  \<open>donations\<close>, \<open>settledAmount\<close> and \<open>lastSettledAt\<close>, and none otherwise; the
  store then holds that document unless the write failed.
\<close>

theorem ui_event_persistence:
  "let p = page \<sigma>; s' = handle_ui e p;
       changed = ((donations s', settledAmount s', lastSettledAt s')
                    \<noteq> (donations p, settledAmount p, lastSettledAt p));
       d = \<lparr>doc_donations = Some (donations s'), doc_settledAmount = Some (settledAmount s'),
            doc_lastSettledAt = lastSettledAt s'\<rparr>
   in writes (sys_step (UI e ok) \<sigma>) = writes \<sigma> @ (if initialLoadDone \<sigma> \<and> changed then [d] else [])
    \<and> store (sys_step (UI e ok) \<sigma>) = (if ok \<and> initialLoadDone \<sigma> \<and> changed then Some d else store \<sigma>)
    \<and> page (sys_step (UI e ok) \<sigma>) = s'"
  by (auto simp: commit_def saveData_def deps_same_def snapshot_def Let_def)

subsection \<open>Round trip\<close>

text \<open>
  C16. Saving a well-formed state and loading the document into any page sets
  exactly the three persisted slots to the saved values and keeps the page's
  other state: a save followed by a load is the identity on the ledger.
\<close>

theorem hydrate_roundtrip:
  assumes "wf_ledger s"
  shows "hydrate (snapshot s) t =
    t\<lparr>donations := donations s, settledAmount := settledAmount s, lastSettledAt := lastSettledAt s\<rparr>"
  using assms
  by (cases "settledAmount s")
     (auto simp: wf_ledger_def hydrate_def snapshot_def js_truthy_str_def split: option.splits)

lemma wf_hydrate: "wf_ledger (hydrate d s)"
  by (auto simp: wf_ledger_def hydrate_def js_truthy_str_def split: option.splits)

lemma wf_handle_ui: "wf_ledger s \<Longrightarrow> ui_enabled e s \<Longrightarrow> wf_ledger (handle_ui e s)"
  by (cases e)
     (auto simp: wf_ledger_def clock_ok_def handleAddDonation_def handleSettle_def onNameChange_def
        onAmountChange_def toggleMonth_def SETTLE_AMOUNT_def plus_jsnum_def Let_def js_add_Num_not_NaN)

lemma wf_sys_step: "wf_ledger (page \<sigma>) \<Longrightarrow> enabled e \<sigma> \<Longrightarrow> wf_ledger (page (sys_step e \<sigma>))"
  by (cases e)
     (auto simp: commit_def saveData_def fetchData_def Let_def wf_hydrate wf_handle_ui split: option.splits)

lemma reachable_wf: "reachable \<sigma> \<Longrightarrow> wf_ledger (page \<sigma>)"
proof (induction rule: reachable.induct)
  case (mounted d0)
  then show ?case by (simp add: mount_def app_init_def wf_ledger_def)
next
  case (step \<sigma> e)
  then show ?case by (simp add: wf_sys_step)
qed

text \<open>
  C17. What is saved is what a reload shows: in every reachable state, a fresh
  page mounted on the document this page would persist, once its load
  succeeds, shows exactly this page's donations, settled amount and settle time.
\<close>

theorem persisted_state_rehydrates:
  assumes "reachable \<sigma>"
  shows "page (sys_step (LoadResolved True w) (mount (Some (snapshot (page \<sigma>))))) =
    app_init\<lparr>donations := donations (page \<sigma>), settledAmount := settledAmount (page \<sigma>),
             lastSettledAt := lastSettledAt (page \<sigma>)\<rparr>"
proof -
  have "wf_ledger (page \<sigma>)" using assms by (rule reachable_wf)
  then show ?thesis
    by (cases "settledAmount (page \<sigma>)")
       (auto simp: wf_ledger_def hydrate_def snapshot_def js_truthy_str_def fetchData_def commit_def
          saveData_def mount_def Let_def split: option.splits)
qed

subsection \<open>The settled amount on the page\<close>

lemma doc_ok_snapshot: "settled_ok (settledAmount s) \<Longrightarrow> doc_ok (snapshot s)"
  by (simp add: doc_ok_def snapshot_def)

lemma settled_ok_hydrate: "doc_ok d \<Longrightarrow> settled_ok (settledAmount (hydrate d s))"
  by (auto simp: doc_ok_def hydrate_def settled_ok_def split: option.splits)

lemma settled_ok_handle_ui:
  "settled_ok (settledAmount s) \<Longrightarrow> settled_ok (settledAmount (handle_ui e s))"
  by (cases e) (auto simp: handleAddDonation_def handleSettle_def onNameChange_def onAmountChange_def
      toggleMonth_def SETTLE_AMOUNT_def plus_jsnum_def Let_def settled_ok_add_unit)

lemma settled_inv_commit:
  "settled_inv \<sigma> \<Longrightarrow> settled_ok (settledAmount s') \<Longrightarrow> settled_inv (commit ch ok s' \<sigma>)"
  by (auto simp: settled_inv_def commit_def saveData_def doc_ok_snapshot)

lemma settled_inv_step:
  assumes "settled_inv \<sigma>" and "admissible e"
  shows "settled_inv (sys_step e \<sigma>)"
proof (cases e)
  case (UI u ok)
  have "settled_ok (settledAmount (handle_ui u (page \<sigma>)))"
    using assms(1) by (simp add: settled_inv_def settled_ok_handle_ui)
  then show ?thesis using UI assms(1) by (simp add: Let_def settled_inv_commit)
next
  case (LoadResolved r w)
  then show ?thesis using assms
    by (auto simp: fetchData_def Let_def settled_inv_def commit_def saveData_def doc_ok_snapshot
        settled_ok_hydrate split: option.splits)
next
  case (ExternalWrite d)
  then show ?thesis using assms by (simp add: settled_inv_def)
qed

lemma run_settled_inv:
  "run es \<sigma> = Some \<sigma>' \<Longrightarrow> settled_inv \<sigma> \<Longrightarrow> list_all admissible es \<Longrightarrow> settled_inv \<sigma>'"
  by (induction es \<sigma> rule: run.induct) (auto simp: settled_inv_step split: if_splits)

text \<open>
  C24. The spec's invariant at page level: on any run from a stored document whose
  settled amount keeps the invariant, in which other sessions write only such
  documents, the settled amount is a non-negative integer multiple of 6000
  whenever it lies in the range where binary64 adds 6000 exactly.
\<close>

theorem settled_multiple_of_unit:
  assumes "run es (mount d0) = Some \<sigma>" and "pred_option doc_ok d0" and "list_all admissible es"
    and "settledAmount (page \<sigma>) = Num r" and "r \<le> 2 ^ 53 - 6000"
  shows "\<exists>k::nat. r = 6000 * of_nat k"
proof -
  have "settled_inv (mount d0)"
    using assms(2) by (simp add: settled_inv_def mount_def app_init_def settled_ok_def)
  then have "settled_ok (Num r)"
    using run_settled_inv [OF assms(1) _ assms(3)] assms(4) by (simp add: settled_inv_def)
  then have r: "0 \<le> r" "r = of_int \<lfloor>r\<rfloor>" "6000 dvd \<lfloor>r\<rfloor>"
    using assms(5) by (auto simp: settled_ok_def)
  then obtain j where j: "\<lfloor>r\<rfloor> = 6000 * j" by blast
  with r have "0 \<le> j" by linarith
  then have "r = 6000 * of_nat (nat j)" using r(2) j by simp
  then show ?thesis by blast
qed

subsection \<open>Runs around the load\<close>

text \<open>
  User events after the load, all writes succeeding: the page is the fold of the
  handlers, and the store either holds the page's current slots or is what it was,
  with the slots unchanged.
\<close>

lemma run_ui_loaded:
  assumes "run (map (\<lambda>e. UI e True) es) \<sigma> = Some \<sigma>'" and "initialLoadDone \<sigma>"
  shows "page \<sigma>' = fold handle_ui es (page \<sigma>)
    \<and> (store \<sigma>' = Some (snapshot (page \<sigma>')) \<or> (store \<sigma>' = store \<sigma> \<and> snapshot (page \<sigma>') = snapshot (page \<sigma>)))"
  using assms
proof (induction es arbitrary: \<sigma>)
  case Nil
  then show ?case by simp
next
  case (Cons e es)
  let ?\<sigma>1 = "sys_step (UI e True) \<sigma>"
  have r: "run (map (\<lambda>e. UI e True) es) ?\<sigma>1 = Some \<sigma>'"
    using Cons.prems(1) by (simp split: if_splits)
  have l: "initialLoadDone ?\<sigma>1" using Cons.prems(2) by (simp add: sys_step_UI del: sys_step.simps)
  have s1: "store ?\<sigma>1 = Some (snapshot (page ?\<sigma>1)) \<or> (store ?\<sigma>1 = store \<sigma> \<and> snapshot (page ?\<sigma>1) = snapshot (page \<sigma>))"
    using Cons.prems(2) by (auto simp: sys_step_UI snapshot_deps simp del: sys_step.simps)
  show ?case
    using Cons.IH [OF r l] s1 by (auto simp: sys_step_UI simp del: sys_step.simps)
qed

text \<open>User events before the load neither write nor touch the store.\<close>

lemma run_ui_before_load:
  assumes "run (map (\<lambda>(u, b). UI u b) es) \<sigma> = Some \<sigma>'" and "\<not> initialLoadDone \<sigma>"
  shows "store \<sigma>' = store \<sigma> \<and> loading \<sigma>' = loading \<sigma> \<and> \<not> initialLoadDone \<sigma>' \<and> writes \<sigma>' = writes \<sigma>"
  using assms
proof (induction es arbitrary: \<sigma>)
  case Nil
  then show ?case by simp
next
  case (Cons p es)
  obtain u b where p: "p = (u, b)" by (cases p)
  have "run (map (\<lambda>(u, b). UI u b) es) (sys_step (UI u b) \<sigma>) = Some \<sigma>'"
    using Cons.prems(1) p by (simp split: if_splits)
  moreover have "\<not> initialLoadDone (sys_step (UI u b) \<sigma>)"
    using Cons.prems(2) by (simp add: sys_step_UI del: sys_step.simps)
  ultimately show ?case
    using Cons.IH Cons.prems(2) by (simp add: sys_step_UI del: sys_step.simps)
qed

text \<open>
  C18. A failed load does not protect the stored document: \<open>finally\<close> marks
  the load done, so as soon as the user's changes differ from the empty defaults
  the store holds the page's state, built from the defaults by this session's
  events alone, whatever document was stored before.
\<close>

theorem failed_load_clobbers_store:
  assumes "run (LoadResolved False w # map (\<lambda>e. UI e True) es) (mount d0) = Some \<sigma>"
    and "snapshot (page \<sigma>) \<noteq> snapshot app_init"
  shows "store \<sigma> = Some (snapshot (page \<sigma>)) \<and> page \<sigma> = fold handle_ui es app_init"
proof -
  let ?\<sigma>0 = "mount d0\<lparr>initialLoadDone := True, loading := False\<rparr>"
  have "run (map (\<lambda>e. UI e True) es) ?\<sigma>0 = Some \<sigma>"
    using assms(1) by (simp add: mount_def fetchData_def)
  from run_ui_loaded [OF this] assms(2) show ?thesis by (auto simp: mount_def)
qed

text \<open>
  C19. A contribution entered before the load completes is lost: whatever the
  user did while \<open>getDoc\<close> was outstanding, after a successful load the page
  shows the stored donations only, and the one document it has written is the
  loaded state.
\<close>

theorem early_entry_lost_on_load:
  assumes "run (map (\<lambda>(u, b). UI u b) es @ [LoadResolved True w]) (mount (Some d)) = Some \<sigma>"
  shows "donations (page \<sigma>) = (case doc_donations d of Some ds \<Rightarrow> ds | None \<Rightarrow> [])
    \<and> writes \<sigma> = [snapshot (page \<sigma>)]"
proof -
  obtain \<sigma>1 where r: "run (map (\<lambda>(u, b). UI u b) es) (mount (Some d)) = Some \<sigma>1"
    and l: "run [LoadResolved True w] \<sigma>1 = Some \<sigma>"
    using assms by (cases "run (map (\<lambda>(u, b). UI u b) es) (mount (Some d))") (auto simp: run_append)
  have "store \<sigma>1 = Some d \<and> loading \<sigma>1 \<and> \<not> initialLoadDone \<sigma>1 \<and> writes \<sigma>1 = []"
    using run_ui_before_load [OF r] by (simp add: mount_def)
  then show ?thesis
    using l by (auto simp: fetchData_def commit_def saveData_def hydrate_def Let_def split: if_splits)
qed

text \<open>
  C20. Last writer wins: after the load, once another session has stored its
  document, this page's next change of its slots replaces that document by the
  page's own state, which the other document never entered.
\<close>

theorem last_writer_wins:
  assumes "initialLoadDone \<sigma>"
    and "run (ExternalWrite d # map (\<lambda>e. UI e True) es) \<sigma> = Some \<sigma>'"
    and "snapshot (page \<sigma>') \<noteq> snapshot (page \<sigma>)"
  shows "store \<sigma>' = Some (snapshot (fold handle_ui es (page \<sigma>)))"
proof -
  have "run (map (\<lambda>e. UI e True) es) (\<sigma>\<lparr>store := Some d\<rparr>) = Some \<sigma>'"
    using assms(2) by simp
  from run_ui_loaded [OF this] assms(1,3) show ?thesis by auto
qed

text \<open>
  C25. The load does not check the spec's invariant: any truthy settled amount
  of the stored document is taken over unchanged, and written back at once.
\<close>

theorem foreign_settled_amount_loaded:
  assumes "doc_settledAmount d = Some x" and "js_truthy_num x"
  shows "settledAmount (page (sys_step (LoadResolved True w) (mount (Some d)))) = x
    \<and> writes (sys_step (LoadResolved True w) (mount (Some d)))
        = [snapshot (page (sys_step (LoadResolved True w) (mount (Some d))))]"
  using assms by (simp add: fetchData_def commit_def saveData_def hydrate_def mount_def Let_def)

end
