(* ===== verification/Spec2Isabelle.thy ===== *)
theory Spec2Isabelle
  imports Persistence
begin

text \<open>
  \<^bold>\<open>Donation tracker: a verification development.\<close>

  The repository is a React page (src/app/src/App.js) backed by one Firestore
  document (src/app/src/firebase.js only initialises the Firestore client).
  Members add contributions; the page shows the running balance against a fixed
  settlement unit of 6000, settles one unit at a time, groups the contributions
  by the month they were added in, and mirrors its state into the document.

  \<^bold>\<open>Theories.\<close>
  \<^item> \<open>Prelude\<close>: the rule collections \<open>js_simps\<close> and \<open>app_simps\<close>, the
    type of JavaScript strings, and generic lemmas on lists, multisets and
    association lists that the components share.
  \<^item> \<open>JS_Number\<close>: JavaScript numbers as IEEE binary64 values
    (\<open>jsnum\<close>: a finite double as the rational it denotes, the infinities, NaN),
    rounding \<open>round_double\<close> (nearest, ties to even, subnormals, overflow),
    addition, negation, subtraction and the relational operators, with the
    library's \<open>+\<close>, \<open>-\<close>, \<open>\<le>\<close>, \<open><\<close> instantiated for them. The main fact is
    that integers up to \<open>2^53\<close> are exact (\<open>round_double_int\<close>, \<open>js_add_int\<close>).
  \<^item> \<open>JS_Parse\<close>: ToNumber on strings (\<open>js_to_number\<close>, used by \<open>isNaN\<close>),
    \<open>parseFloat\<close> and string truthiness, as the add handler applies them to
    the amount field, and \<open>valid_float_string\<close>, the values an
    \<open><input type="number">\<close> can hold (HTML's valid floating-point number).
  \<^item> \<open>Ledger\<close>: the component state of \<open>App\<close> (records \<open>donation\<close>,
    \<open>ledger\<close>, \<open>app\<close>), \<open>SETTLE_AMOUNT\<close>, the derived \<open>totalAmount\<close> (the
    \<open>reduce\<close> of line 79) and \<open>remaining\<close>, and the handlers
    \<open>handleAddDonation\<close> and \<open>handleSettle\<close>. A handler maps the committed state
    to the next committed state: React flushes the updates of a discrete event
    before the next one, so the closure a handler reads is the current state.
  \<^item> \<open>Grouping\<close>: the \<open>groupedDonations\<close> reduce over a model of a plain
    JavaScript object (own properties in creation order, inherited properties of
    \<open>Object.prototype\<close>), \<open>Object.entries\<close> order, the month toggle and the
    rendered month list (\<open>month_view\<close>); \<open>group_spec\<close> is the reference
    grouping that the spec describes.
  \<^item> \<open>Persistence\<close>: the Firestore document as the store (\<open>fdoc\<close>, absent
    or with optional fields), the load effect \<open>fetchData\<close> (lines 20-37: one
    \<open>getDoc\<close>, the per-field \<open>||\<close> defaults as \<open>hydrate\<close>, \<open>finally\<close>
    setting the ref), the save effect \<open>saveData\<close> (lines 41-56: the ref guard and
    a full-document \<open>setDoc\<close> of \<open>snapshot\<close>, which may fail), its dependency
    test \<open>deps_same\<close>, and the page as a whole: \<open>sys\<close> (React state, the ref,
    the outstanding load, the store, the list of \<open>setDoc\<close> calls issued), the
    events \<open>event\<close> (user events with the outcome of the write they may cause,
    completion or failure of the load, a write by another session), the step
    function \<open>sys_step\<close> with its enabling condition \<open>enabled\<close> (the number
    input's sanitised values, the disabled settle button, the rendered month
    buttons), runs \<open>run\<close> and the inductive \<open>reachable\<close>.
  \<^item> \<open>Spec2Isabelle\<close> (this theory): example data and the witnesses that
    apply the component theorems to it, most of them along concrete runs of the
    page, and the example of a binary64 total (\<open>total_not_decimal\<close>).

  \<^bold>\<open>What is proved.\<close>
  C1 to C4 (Ledger): the add handler appends exactly one donation and adds its
  parsed amount to the total, or leaves the state unchanged on an empty name,
  an empty amount or a NaN amount; a settle changes the settled amount by 0 or
  exactly 6000 while the doubles stay exact; below the threshold no number of
  settle calls changes anything.
  C5 to C10 (Grouping): the reduce refines the reference grouping, including the
  TypeError it throws on a month named like a property of \<open>Object.prototype\<close>;
  its groups partition the donations; groups come in first-insertion order when
  no label is an array index, and otherwise every array-index label comes first,
  in ascending numeric order; at most one group is expanded, and the toggle
  flips the pressed group and collapses the others.
  C11 to C13 (Ledger): a settle lowers the remaining balance by exactly 6000 on
  whole amounts within \<open>2^53\<close>; a total of whole amounts is their exact sum while
  their magnitudes add up to at most \<open>2^53\<close> (beyond whole amounts it is a binary64
  sum, see \<open>total_not_decimal\<close>); after a full settle any negative whole
  contribution makes the remaining balance negative.
  C14 to C17 (Persistence): no \<open>setDoc\<close> before the load completes, in any
  reachable state (rule induction over \<open>reachable\<close>); each user event writes the
  three slots exactly when it changed one of them after the load; saving a
  well-formed state and loading it into any page sets exactly the three slots;
  a fresh page loading what a reachable page would save shows that page's
  ledger (by the invariant \<open>wf_ledger\<close>: the settled amount is never NaN, a
  settle time never empty).
  C18 to C20 (Persistence): after a failed load, any run of user events whose
  result differs from the defaults leaves the page's own state in the store,
  whatever it held; whatever is entered before a successful load is replaced by
  the stored donations and never written; after another session's write, the
  page's next changes replace that document by the page's state.
  C21 and C22 (Ledger): on the page a contribution records ToNumber of the
  amount field, which is never NaN, and is accepted exactly when both fields are
  non-empty (JS_Parse: ToNumber and \<open>parseFloat\<close> agree on every valid
  floating-point number).
  C23 to C25 (Ledger, Persistence): a settle keeps the settled amount a
  non-negative multiple of 6000 below \<open>2^53 - 6000\<close> (\<open>settled_ok\<close>, using that
  \<open>flog2\<close> is the exact binary exponent and that rounding never drops below
  \<open>2^53\<close> above it); on every run whose stored documents keep the invariant, the
  page's settled amount is such a multiple in the exact range; and the load
  takes any truthy stored amount unchanged and writes it back.

  \<^bold>\<open>Bounds.\<close> Exactness of the settled amount is stated for integers of
  magnitude at most \<open>2^53\<close>, the range in which every integer is a double.
  No loop of the program is unbounded: every reduce is a fold over a finite
  list, so all functions are total without fuel.

  \<^bold>\<open>Plan.\<close> Next: monotonicity of \<open>round_double\<close> in general and the
  remaining balance's behaviour under it; the display rounding \<open>toFixed(2)\<close>;
  the page's behaviour when the month view throws (stored labels such as
  \<open>constructor\<close>); two sessions of the page sharing the store as one system.

  \<^bold>\<open>Not modelled.\<close> Layout and styling of the JSX; the Firebase SDK
  (src/app/src/firebase.js only configures it) beyond read, full write and
  failure, and the reordering of writes in flight; the exact text of
  \<open>toLocaleString\<close>, which is a parameter (\<open>clock\<close>, non-empty strings);
  \<open>toFixed(2)\<close> of the displayed balance; the sign of zero, which the
  accumulators never produce; stored documents whose fields have other
  JavaScript types than the page writes (a string amount, a non-array
  \<open>donations\<close>): \<open>fdoc\<close> types the fields as the page writes them; a render that
  throws (the month view on a label such as \<open>constructor\<close>) is assumed not to
  stop later events, an over-approximation of the page's runs; React 17's
  unbatched updates (the model follows
  React 18, where the save after a successful load sees the ref set).
\<close>

subsection \<open>Example data\<close>

definition ex_clock :: clock where
  "ex_clock = \<lparr>locale_datetime = ''2/3/2025, 9:15:00 AM'', locale_month = ''February 2025''\<rparr>"

definition ex_alice :: donation where
  "ex_alice = \<lparr>name = ''Alice'', amount = Num 3000, timestamp = ''1/5/2025, 10:00:00 AM'', month = ''January 2025''\<rparr>"

definition ex_bob :: donation where
  "ex_bob = \<lparr>name = ''Bob'', amount = Num 3500, timestamp = ''1/9/2025, 6:30:00 PM'', month = ''January 2025''\<rparr>"

definition ex_carl :: donation where
  "ex_carl = \<lparr>name = ''Carl'', amount = Num 100, timestamp = ''2/1/2025, 8:00:00 AM'', month = ''February 2025''\<rparr>"

definition ex_state :: app where
  "ex_state = app_init\<lparr>donations := [ex_alice, ex_bob, ex_carl], expandedMonth := Some ''January 2025''\<rparr>"

text \<open>A stored document with Alice's and Bob's contributions, the events that
  enter Carl's contribution of 100, and a document another session writes.\<close>

definition ex_doc :: fdoc where
  "ex_doc = \<lparr>doc_donations = Some [ex_alice, ex_bob], doc_settledAmount = Some (Num 0), doc_lastSettledAt = None\<rparr>"

definition ex_carl_ui :: "ui_event list" where
  "ex_carl_ui = [NameInput ''Carl'', AmountInput ''100'', AddClick ex_clock]"

definition ex_carl_entry :: "event list" where
  "ex_carl_entry = map (\<lambda>e. UI e True) ex_carl_ui"

definition ex_carl_donation :: donation where
  "ex_carl_donation = \<lparr>name = ''Carl'', amount = Num 100,
     timestamp = locale_datetime ex_clock, month = locale_month ex_clock\<rparr>"

text \<open>A page whose second contribution carries the label \<open>2025\<close>, an array index.\<close>

definition ex_index_state :: app where
  "ex_index_state = app_init\<lparr>donations := [ex_alice, ex_carl\<lparr>month := ''2025''\<rparr>]\<rparr>"

definition ex_other_doc :: fdoc where
  "ex_other_doc = \<lparr>doc_donations = Some [ex_alice, ex_bob, ex_alice\<lparr>name := ''Dave''\<rparr>],
     doc_settledAmount = Some (Num 0), doc_lastSettledAt = None\<rparr>"

subsection \<open>Witnesses of the grouping theorems\<close>

theorem groupedDonations_refines_witness:
  "groupedDonations (app_init\<lparr>donations := [ex_alice, ex_carl\<lparr>month := ''constructor''\<rparr>]\<rparr>)
   = Inl (TypeError ''acc[donation.month].push is not a function'')"
  using groupedDonations_refines [of "app_init\<lparr>donations := [ex_alice, ex_carl\<lparr>month := ''constructor''\<rparr>]\<rparr>"]
  by (simp add: app_init_def ex_alice_def ex_carl_def proto_keys_def)

theorem groupedDonations_partition_witness:
  "groupedDonations ex_state = Inr [(''January 2025'', [ex_alice, ex_bob]), (''February 2025'', [ex_carl])]
   \<and> mset (concat (map snd [(''January 2025'', [ex_alice, ex_bob]), (''February 2025'', [ex_carl])]))
     = mset (donations ex_state)"
proof -
  have h: "groupedDonations ex_state = Inr [(''January 2025'', [ex_alice, ex_bob]), (''February 2025'', [ex_carl])]"
    by code_simp
  show ?thesis using groupedDonations_partition [OF h] h by simp
qed

theorem month_order_first_insertion_witness:
  "map fst (object_entries [(''January 2025'', [ex_alice, ex_bob]), (''February 2025'', [ex_carl])])
   = [''January 2025'', ''February 2025'']"
proof -
  have a: "\<not> list_ex (\<lambda>d. is_array_index (month d)) (donations ex_state)" by code_simp
  have h: "groupedDonations ex_state = Inr [(''January 2025'', [ex_alice, ex_bob]), (''February 2025'', [ex_carl])]"
    by code_simp
  have "first_occurrences (map month (donations ex_state)) = [''January 2025'', ''February 2025'']"
    by code_simp
  then show ?thesis using month_order_first_insertion [OF a h] by simp
qed

theorem month_view_one_expanded_witness:
  "month_view ex_state = Inr [(''January 2025'', True, [ex_bob, ex_alice]), (''February 2025'', False, [])]
   \<and> length (filter (\<lambda>(m, e, ds). e) [(''January 2025'', True, [ex_bob, ex_alice]), (''February 2025'', False, [])]) \<le> 1"
proof -
  have h: "month_view ex_state = Inr [(''January 2025'', True, [ex_bob, ex_alice]), (''February 2025'', False, [])]"
    by code_simp
  show ?thesis using month_view_one_expanded [OF h] h by simp
qed

theorem toggleMonth_view_witness:
  "month_view (toggleMonth ''February 2025'' ex_state)
   = Inr [(''January 2025'', False, []), (''February 2025'', True, [ex_carl])]"
proof -
  have h: "groupedDonations ex_state = Inr [(''January 2025'', [ex_alice, ex_bob]), (''February 2025'', [ex_carl])]"
    by code_simp
  have "object_entries [(''January 2025'', [ex_alice, ex_bob]), (''February 2025'', [ex_carl])]
      = [(''January 2025'', [ex_alice, ex_bob]), (''February 2025'', [ex_carl])]" by code_simp
  moreover have "expandedMonth ex_state = Some ''January 2025''" by (simp add: ex_state_def)
  ultimately show ?thesis using toggleMonth_view [OF h, of "''February 2025''"] by simp
qed


theorem month_order_array_index_first_witness:
  "\<exists>xs. map fst (object_entries [(''January 2025'', [ex_alice]), (''2025'', [ex_carl\<lparr>month := ''2025''\<rparr>])])
          = xs @ [''January 2025''] \<and> set xs = {''2025''}"
proof -
  have h: "groupedDonations ex_index_state = Inr [(''January 2025'', [ex_alice]), (''2025'', [ex_carl\<lparr>month := ''2025''\<rparr>])]"
    by code_simp
  have f: "filter (\<lambda>m. \<not> is_array_index m) (first_occurrences (map month (donations ex_index_state))) = [''January 2025'']"
    by code_simp
  have i: "is_array_index ''2025''" "\<not> is_array_index ''January 2025''" by code_simp+
  have "{m \<in> set (map month (donations ex_index_state)). is_array_index m} = {''2025''}"
    using i by (auto simp: ex_index_state_def app_init_def ex_alice_def ex_carl_def)
  then show ?thesis using month_order_array_index_first [OF h] f by auto
qed

subsection \<open>Examples\<close>

text \<open>
  The total is a binary64 sum, not a decimal one: contributions of \<open>0.1\<close> and
  \<open>0.2\<close> add up to \<open>0.30000000000000004\<close>, which is not \<open>parseFloat("0.3")\<close>.
\<close>

lemma total_not_decimal:
  "totalAmount (app_init\<lparr>donations := [ex_alice\<lparr>amount := parseFloat ''0.1''\<rparr>, ex_bob\<lparr>amount := parseFloat ''0.2''\<rparr>]\<rparr>)
     = Num (1351079888211149 / 2 ^ 52)
   \<and> Num (1351079888211149 / 2 ^ 52) \<noteq> parseFloat ''0.3''"
proof -
  have p: "parseFloat ''0.1'' = Num (3602879701896397 / 2 ^ 55)"
    "parseFloat ''0.2'' = Num (3602879701896397 / 2 ^ 54)"
    "parseFloat ''0.3'' = Num (5404319552844595 / 2 ^ 54)" by code_simp+
  have a: "round_double (3602879701896397 / 2 ^ 55) = Num (3602879701896397 / 2 ^ 55)"
    "round_double (3602879701896397 / 2 ^ 55 + 3602879701896397 / 2 ^ 54) = Num (1351079888211149 / 2 ^ 52)"
    by code_simp+
  show ?thesis using p a by (simp add: app_init_def totalAmount_def js_simps)
qed

subsection \<open>Runs of the page\<close>

lemma ex_facts:
  "valid_float_string ''100''" "\<not> js_isNaN ''100''" "parseFloat ''100'' = Num 100" "clock_ok ex_clock"
  by code_simp+

lemmas run_simps = ex_carl_entry_def ex_carl_ui_def mount_def app_init_def commit_def saveData_def fetchData_def
  deps_same_def handleAddDonation_def onNameChange_def onAmountChange_def js_truthy_str_def
  hydrate_def snapshot_def Let_def ex_doc_def ex_facts

theorem no_write_before_load_witness:
  "\<exists>\<sigma>. run ex_carl_entry (mount (Some ex_doc)) = Some \<sigma> \<and> \<not> initialLoadDone \<sigma>
      \<and> length (donations (page \<sigma>)) = 1 \<and> writes \<sigma> = []"
proof -
  obtain \<sigma> where r: "run ex_carl_entry (mount (Some ex_doc)) = Some \<sigma>"
    by (simp add: run_simps)
  have "reachable \<sigma>" using r by (rule run_reachable) (rule reachable.mounted)
  moreover have n: "\<not> initialLoadDone \<sigma> \<and> length (donations (page \<sigma>)) = 1"
    using r by (auto simp: run_simps)
  ultimately have "writes \<sigma> = []" by (simp add: no_write_before_load)
  with r n show ?thesis by blast
qed

theorem hydrate_roundtrip_witness:
  "hydrate (snapshot (ex_state\<lparr>settledAmount := Num 6000, lastSettledAt := Some ''t''\<rparr>)) app_init
   = app_init\<lparr>donations := [ex_alice, ex_bob, ex_carl], settledAmount := Num 6000, lastSettledAt := Some ''t''\<rparr>"
  using hydrate_roundtrip [of "ex_state\<lparr>settledAmount := Num 6000, lastSettledAt := Some ''t''\<rparr>" app_init]
  by (simp add: wf_ledger_def ex_state_def app_init_def)

theorem persisted_state_rehydrates_witness:
  "\<exists>\<sigma>. run (LoadResolved True True # ex_carl_entry) (mount (Some ex_doc)) = Some \<sigma>
      \<and> length (donations (page \<sigma>)) = 3
      \<and> page (sys_step (LoadResolved True False) (mount (Some (snapshot (page \<sigma>))))) =
          app_init\<lparr>donations := donations (page \<sigma>), settledAmount := settledAmount (page \<sigma>),
                   lastSettledAt := lastSettledAt (page \<sigma>)\<rparr>"
proof -
  obtain \<sigma> where r: "run (LoadResolved True True # ex_carl_entry) (mount (Some ex_doc)) = Some \<sigma>"
    by (simp add: run_simps)
  have "reachable \<sigma>" using r by (rule run_reachable) (rule reachable.mounted)
  then have "page (sys_step (LoadResolved True False) (mount (Some (snapshot (page \<sigma>))))) =
          app_init\<lparr>donations := donations (page \<sigma>), settledAmount := settledAmount (page \<sigma>),
                   lastSettledAt := lastSettledAt (page \<sigma>)\<rparr>"
    by (rule persisted_state_rehydrates)
  moreover have "length (donations (page \<sigma>)) = 3" using r by (auto simp: run_simps)
  ultimately show ?thesis using r by blast
qed

theorem failed_load_clobbers_store_witness:
  "\<exists>\<sigma>. run (LoadResolved False False # map (\<lambda>e. UI e True) ex_carl_ui) (mount (Some ex_doc)) = Some \<sigma>
      \<and> store \<sigma> = Some (snapshot (page \<sigma>)) \<and> donations (page \<sigma>) = [ex_carl_donation]"
proof -
  obtain \<sigma> where r: "run (LoadResolved False False # map (\<lambda>e. UI e True) ex_carl_ui) (mount (Some ex_doc)) = Some \<sigma>"
    by (simp add: run_simps ex_carl_ui_def)
  have d: "donations (page \<sigma>) = [ex_carl_donation]"
    using r by (auto simp: run_simps ex_carl_ui_def ex_carl_donation_def)
  then have "snapshot (page \<sigma>) \<noteq> snapshot app_init" by (simp add: snapshot_def app_init_def)
  then have "store \<sigma> = Some (snapshot (page \<sigma>))"
    using failed_load_clobbers_store [OF r] by blast
  with r d show ?thesis by blast
qed

theorem early_entry_lost_on_load_witness:
  "\<exists>\<sigma>. run (map (\<lambda>(u, b). UI u b) [(NameInput ''Carl'', True), (AmountInput ''100'', True), (AddClick ex_clock, True)]
            @ [LoadResolved True True]) (mount (Some ex_doc)) = Some \<sigma>
      \<and> donations (page \<sigma>) = [ex_alice, ex_bob] \<and> writes \<sigma> = [snapshot (page \<sigma>)]"
proof -
  obtain \<sigma> where r: "run (map (\<lambda>(u, b). UI u b) [(NameInput ''Carl'', True), (AmountInput ''100'', True), (AddClick ex_clock, True)]
            @ [LoadResolved True True]) (mount (Some ex_doc)) = Some \<sigma>"
    by (simp add: run_simps)
  from early_entry_lost_on_load [OF r] have "donations (page \<sigma>) = [ex_alice, ex_bob] \<and> writes \<sigma> = [snapshot (page \<sigma>)]"
    by (simp add: ex_doc_def)
  with r show ?thesis by blast
qed

theorem last_writer_wins_witness:
  "\<exists>\<sigma> \<sigma>'. run [LoadResolved True True] (mount (Some ex_doc)) = Some \<sigma>
      \<and> run (ExternalWrite ex_other_doc # map (\<lambda>e. UI e True) ex_carl_ui) \<sigma> = Some \<sigma>'
      \<and> store \<sigma>' = Some (snapshot (fold handle_ui ex_carl_ui (page \<sigma>)))
      \<and> map_option doc_donations (store \<sigma>') = Some (Some [ex_alice, ex_bob, ex_carl_donation])"
proof -
  obtain \<sigma> where r1: "run [LoadResolved True True] (mount (Some ex_doc)) = Some \<sigma>"
    by (simp add: run_simps)
  have l: "initialLoadDone \<sigma>" and p: "donations (page \<sigma>) = [ex_alice, ex_bob]"
    using r1 by (auto simp: run_simps)
  obtain \<sigma>' where r2: "run (ExternalWrite ex_other_doc # map (\<lambda>e. UI e True) ex_carl_ui) \<sigma> = Some \<sigma>'"
    using l by (simp add: run_simps ex_carl_ui_def)
  have d: "donations (page \<sigma>') = [ex_alice, ex_bob, ex_carl_donation]"
    using r2 l p by (auto simp: run_simps ex_carl_ui_def ex_carl_donation_def)
  then have "snapshot (page \<sigma>') \<noteq> snapshot (page \<sigma>)" using p by (simp add: snapshot_def)
  then have s: "store \<sigma>' = Some (snapshot (fold handle_ui ex_carl_ui (page \<sigma>)))"
    using last_writer_wins [OF l r2] by blast
  have "fold handle_ui ex_carl_ui (page \<sigma>) = page \<sigma>'"
    using r2 l by (auto simp: run_simps ex_carl_ui_def)
  with s d have "map_option doc_donations (store \<sigma>') = Some (Some [ex_alice, ex_bob, ex_carl_donation])"
    by (simp add: snapshot_def)
  with r1 r2 s show ?thesis by blast
qed

subsection \<open>Witnesses of the input theorems\<close>

theorem handleAddDonation_page_input_witness:
  "donations (handleAddDonation ex_clock (app_init\<lparr>name_input := ''Dan'', amount_input := ''-5''\<rparr>))
   = [\<lparr>name = ''Dan'', amount = parseFloat ''-5'', timestamp = locale_datetime ex_clock,
       month = locale_month ex_clock\<rparr>]"
proof -
  have "valid_float_string ''-5''" by code_simp
  then show ?thesis
    using handleAddDonation_page_input [of "app_init\<lparr>name_input := ''Dan'', amount_input := ''-5''\<rparr>" ex_clock]
    by (simp add: app_init_def)
qed

subsection \<open>The settled amount\<close>

theorem handleSettle_settled_ok_witness:
  "settled_ok (settledAmount (handleSettle ex_clock (app_init\<lparr>donations := [ex_alice, ex_bob]\<rparr>)))"
  by (rule handleSettle_settled_ok) (simp add: app_init_def settled_ok_def)

lemmas settle_run_simps = handleSettle_def remaining_def totalAmount_def SETTLE_AMOUNT_def js_sub_def
  ex_alice_def ex_bob_def

theorem settled_multiple_of_unit_witness:
  "\<exists>\<sigma>. run (LoadResolved True True # ex_carl_entry @ [UI (SettleClick ex_clock) True]) (mount (Some ex_doc)) = Some \<sigma>
      \<and> settledAmount (page \<sigma>) = Num 6000 \<and> (\<exists>k::nat. (6000::rat) = 6000 * of_nat k)"
proof -
  obtain \<sigma> where r: "run (LoadResolved True True # ex_carl_entry @ [UI (SettleClick ex_clock) True]) (mount (Some ex_doc)) = Some \<sigma>"
    by (simp add: run_simps settle_run_simps js_simps)
  have s: "settledAmount (page \<sigma>) = Num 6000"
    using r by (auto simp: run_simps settle_run_simps js_simps)
  have "pred_option doc_ok (Some ex_doc)" by (simp add: ex_doc_def doc_ok_def settled_ok_def)
  moreover have "list_all admissible (LoadResolved True True # ex_carl_entry @ [UI (SettleClick ex_clock) True])"
    by (simp add: ex_carl_entry_def ex_carl_ui_def)
  ultimately have "\<exists>k::nat. (6000::rat) = 6000 * of_nat k"
    using settled_multiple_of_unit [OF r _ _ s] by simp
  with r s show ?thesis by blast
qed

theorem foreign_settled_amount_loaded_witness:
  "settledAmount (page (sys_step (LoadResolved True True) (mount (Some (ex_doc\<lparr>doc_settledAmount := Some (Num 5)\<rparr>)))))
     = Num 5
   \<and> \<not> settled_ok (Num 5)"
  using foreign_settled_amount_loaded [of "ex_doc\<lparr>doc_settledAmount := Some (Num 5)\<rparr>" "Num 5" True]
  by (simp add: settled_ok_def)

end
